theory Spec2Isabelle
  imports Complex_Main "HOL-Library.AList" "HOL-Library.Multiset"
    "HOL-Library.Char_ord" "HOL-Library.List_Lexorder"
begin

section \<open>The campaign table\<close>

text \<open>
  The notebook \<^verbatim>\<open>full_facebook_ad_project.ipynb\<close> keeps one pandas table \<^verbatim>\<open>df\<close>
  and derives further tables and arrays from it, cell after cell. A table is an index
  and an ordered list of named columns; a column holds integers (\<^verbatim>\<open>int64\<close>), floats
  (\<^verbatim>\<open>float64\<close>) or strings (\<^verbatim>\<open>object\<close>).

  A float is an exact rational, an infinity or NaN: rounding and the sign of zero are
  left out, division by zero and NaN are kept. An integer is a mathematical integer;
  where the code adds \<^verbatim>\<open>int64\<close> values, in the sums of the aggregation, the
  wrap-around modulo \<open>2^64\<close> is written out.
\<close>

datatype fval = Num rat | PosInf | NegInf | NaN

datatype column = IntCol "int list" | FloatCol "fval list" | StrCol "string list"

datatype label = Row nat | Key string

record dataframe =
  index :: "label list"
  cols :: "(string \<times> column) list"

text \<open>
  What the library calls raise. \<open>NotModelled\<close> marks an input on which the library's
  result depends on details this development does not fix (for one, how NaN is sorted
  and summed); no theorem below says anything about such a run.
\<close>

datatype py_error =
  KeyError string | NameError string | TypeError | ValueError | IndexError | NotModelled

definition seq :: "py_error + 'a \<Rightarrow> ('a \<Rightarrow> py_error + 'b) \<Rightarrow> py_error + 'b" where
  "seq m f = (case m of Inl e \<Rightarrow> Inl e | Inr x \<Rightarrow> f x)"

fun column_len :: "column \<Rightarrow> nat" where
  "column_len (IntCol xs) = length xs"
| "column_len (FloatCol xs) = length xs"
| "column_len (StrCol xs) = length xs"

text \<open>\<^verbatim>\<open>len(df)\<close>\<close>

definition nrows :: "dataframe \<Rightarrow> nat" where
  "nrows d = length (index d)"

text \<open>Every column of a table is as long as its index, and no column name is used twice.\<close>

definition wf_frame :: "dataframe \<Rightarrow> bool" where
  "wf_frame d \<longleftrightarrow>
     list_all (\<lambda>nc. column_len (snd nc) = nrows d) (cols d) \<and> distinct (map fst (cols d))"

text \<open>\<^verbatim>\<open>d[name]\<close>\<close>

definition getitem :: "dataframe \<Rightarrow> string \<Rightarrow> py_error + column" where
  "getitem d name = (case map_of (cols d) name of None \<Rightarrow> Inl (KeyError name) | Some c \<Rightarrow> Inr c)"

text \<open>
  \<^verbatim>\<open>d[name] = c\<close>: a column of that name is replaced where it stands, a new name is
  appended after the last column; values of another length than the index are refused.
\<close>

definition setitem :: "dataframe \<Rightarrow> string \<Rightarrow> column \<Rightarrow> py_error + dataframe" where
  "setitem d name c =
     (if column_len c \<noteq> nrows d then Inl ValueError
      else Inr (d\<lparr>cols := AList.update name c (cols d)\<rparr>))"

subsection \<open>Float arithmetic of the columns\<close>

text \<open>IEEE division: a finite value over zero is an infinity, zero over zero is NaN.\<close>

fun fdiv :: "fval \<Rightarrow> fval \<Rightarrow> fval" where
  "fdiv (Num a) (Num b) =
     (if b \<noteq> 0 then Num (a / b) else if a = 0 then NaN else if 0 < a then PosInf else NegInf)"
| "fdiv NaN _ = NaN"
| "fdiv _ NaN = NaN"
| "fdiv (Num a) _ = Num 0"
| "fdiv PosInf (Num b) = (if 0 \<le> b then PosInf else NegInf)"
| "fdiv NegInf (Num b) = (if 0 \<le> b then NegInf else PosInf)"
| "fdiv _ _ = NaN"

text \<open>A numeric column as floats; arithmetic on a string column is a \<^verbatim>\<open>TypeError\<close>.\<close>

fun to_floats :: "column \<Rightarrow> py_error + fval list" where
  "to_floats (IntCol xs) = Inr (map (\<lambda>x. Num (of_int x)) xs)"
| "to_floats (FloatCol xs) = Inr xs"
| "to_floats (StrCol xs) = Inl TypeError"

text \<open>\<^verbatim>\<open>a / b\<close> on two columns of one table: the true division, row by row.\<close>

definition series_truediv :: "column \<Rightarrow> column \<Rightarrow> py_error + column" where
  "series_truediv a b =
     seq (to_floats a) (\<lambda>x. seq (to_floats b) (\<lambda>y. Inr (FloatCol (map2 fdiv x y))))"

section \<open>The notebook's variables\<close>

text \<open>
  The state of the kernel: numpy's global generator and the variables the cells assign.
  A variable that no cell has assigned yet is \<open>None\<close>; reading it is a \<^verbatim>\<open>NameError\<close>.
\<close>

datatype cell = I int | F fval | S string

datatype label_encoder = LabelEncoder (classes: column)

record 'g notebook =
  np_state :: 'g
  df :: dataframe
  grouped :: "dataframe option"
  df_model :: "dataframe option"
  le_dict :: "(string \<times> label_encoder) list option"
  X :: "cell list list option"
  y :: "cell list option"
  X_train :: "cell list list option"
  X_test :: "cell list list option"
  y_train :: "cell list option"
  y_test :: "cell list option"

definition var :: "string \<Rightarrow> 'a option \<Rightarrow> py_error + 'a" where
  "var name v = (case v of None \<Rightarrow> Inl (NameError name) | Some x \<Rightarrow> Inr x)"

section \<open>Exploratory analysis: the click-through rate\<close>

text \<open>
  \<^verbatim>\<open>df['CTR'] = df['Clicks'] / df['Impressions']\<close>

  The plots that follow read the table and assign nothing.
\<close>

definition ctr_cell :: "'g notebook \<Rightarrow> py_error + 'g notebook" where
  "ctr_cell st =
     seq (getitem (df st) ''Clicks'') (\<lambda>c.
     seq (getitem (df st) ''Impressions'') (\<lambda>i.
     seq (series_truediv c i) (\<lambda>q.
     seq (setitem (df st) ''CTR'' q) (\<lambda>d.
     Inr (st\<lparr>df := d\<rparr>)))))"

section \<open>The simulated A/B test\<close>

text \<open>
  numpy's generator is a dependency, not code of the notebook: it is a parameter here.
  Seeding gives a generator state that depends on the seed alone; a draw takes a state
  and returns its values with the next state. \<open>np_choice\<close> is
  \<^verbatim>\<open>choice(options, size=n)\<close>, \<open>np_permutation\<close> is \<^verbatim>\<open>permutation(n)\<close>.
\<close>

record 'g np_random =
  np_seed :: "nat \<Rightarrow> 'g"
  np_choice :: "string list \<Rightarrow> nat \<Rightarrow> 'g \<Rightarrow> string list \<times> 'g"
  np_permutation :: "nat \<Rightarrow> 'g \<Rightarrow> nat list \<times> 'g"

text \<open>
  \<^verbatim>\<open>np.random.seed(42)\<close>

  \<^verbatim>\<open>df['ad_variant'] = np.random.choice(['A', 'B'], size=len(df))\<close>
\<close>

definition assign_variants :: "'g np_random \<Rightarrow> 'g notebook \<Rightarrow> py_error + 'g notebook" where
  "assign_variants G st =
     (let g = np_seed G 42;
          drawn = np_choice G [''A'', ''B''] (nrows (df st)) g
      in seq (setitem (df st) ''ad_variant'' (StrCol (fst drawn))) (\<lambda>d.
         Inr (st\<lparr>np_state := snd drawn, df := d\<rparr>)))"

text \<open>The distinct values of a column in ascending order, as \<^verbatim>\<open>np.unique\<close> gives them.\<close>

definition unique :: "'a::linorder list \<Rightarrow> 'a list" where
  "unique xs = sort (remdups xs)"

text \<open>
  \<^verbatim>\<open>int64\<close> addition: a result outside \<open>-2^63, ..., 2^63 - 1\<close> wraps around modulo
  \<open>2^64\<close>. A sum accumulates its values with this addition.
\<close>

definition wrap64 :: "int \<Rightarrow> int" where
  "wrap64 x = (x + 2 ^ 63) mod 2 ^ 64 - 2 ^ 63"

definition add64 :: "int \<Rightarrow> int \<Rightarrow> int" where
  "add64 a b = wrap64 (a + b)"

definition sum64 :: "int list \<Rightarrow> int" where
  "sum64 xs = foldl add64 0 xs"

text \<open>The values whose record carries the label \<open>k\<close>, and their \<^verbatim>\<open>int64\<close> sum.\<close>

definition group_values :: "string list \<Rightarrow> int list \<Rightarrow> string \<Rightarrow> int list" where
  "group_values labels xs k = map snd (filter (\<lambda>lx. fst lx = k) (zip labels xs))"

definition group_sum :: "string list \<Rightarrow> int list \<Rightarrow> string \<Rightarrow> int" where
  "group_sum labels xs k = sum64 (group_values labels xs k)"

text \<open>
  For stating when a sum does not wrap: the exact sum of a group's values, and the range
  of \<^verbatim>\<open>int64\<close>.
\<close>

definition group_total :: "string list \<Rightarrow> int list \<Rightarrow> string \<Rightarrow> int" where
  "group_total labels xs k = sum_list (group_values labels xs k)"

definition in_int64 :: "int \<Rightarrow> bool" where
  "in_int64 x \<longleftrightarrow> - (2 ^ 63) \<le> x \<and> x < 2 ^ 63"

fun agg_sum :: "string list \<Rightarrow> string list \<Rightarrow> column \<Rightarrow> py_error + column" where
  "agg_sum labels ks (IntCol xs) = Inr (IntCol (map (group_sum labels xs) ks))"
| "agg_sum labels ks (FloatCol xs) = Inl NotModelled"
| "agg_sum labels ks (StrCol xs) = Inl NotModelled"

fun agg_columns ::
  "dataframe \<Rightarrow> string list \<Rightarrow> string list \<Rightarrow> string list \<Rightarrow> py_error + (string \<times> column) list"
where
  "agg_columns d labels ks [] = Inr []"
| "agg_columns d labels ks (n # ns) =
     seq (getitem d n) (\<lambda>c.
     seq (agg_sum labels ks c) (\<lambda>s.
     seq (agg_columns d labels ks ns) (\<lambda>rest.
     Inr ((n, s) # rest))))"

text \<open>
  \<^verbatim>\<open>d.groupby(key).agg({name: 'sum', ...})\<close>: one row per distinct key, the keys in
  ascending order as the index, one column of sums per name.
\<close>

definition groupby_sum :: "dataframe \<Rightarrow> string \<Rightarrow> string list \<Rightarrow> py_error + dataframe" where
  "groupby_sum d key names =
     seq (getitem d key) (\<lambda>k.
       case k of
         StrCol labels \<Rightarrow>
           seq (agg_columns d labels (unique labels) names) (\<lambda>cs.
           Inr \<lparr>index = map Key (unique labels), cols = cs\<rparr>)
       | _ \<Rightarrow> Inl NotModelled)"

text \<open>
  \<^verbatim>\<open>grouped = df.groupby('ad_variant').agg({'Impressions': 'sum', 'Clicks': 'sum'})\<close>

  \<^verbatim>\<open>grouped['CTR'] = grouped['Clicks'] / grouped['Impressions']\<close>
\<close>

definition aggregate_variants :: "'g notebook \<Rightarrow> py_error + 'g notebook" where
  "aggregate_variants st =
     seq (groupby_sum (df st) ''ad_variant'' [''Impressions'', ''Clicks'']) (\<lambda>g.
     seq (getitem g ''Clicks'') (\<lambda>c.
     seq (getitem g ''Impressions'') (\<lambda>i.
     seq (series_truediv c i) (\<lambda>q.
     seq (setitem g ''CTR'' q) (\<lambda>g'.
     Inr (st\<lparr>grouped := Some g'\<rparr>))))))"

definition ab_cell :: "'g np_random \<Rightarrow> 'g notebook \<Rightarrow> py_error + 'g notebook" where
  "ab_cell G st = seq (assign_variants G st) aggregate_variants"

text \<open>A float between 0 and 1; NaN and the infinities are not.\<close>

fun in_unit :: "fval \<Rightarrow> bool" where
  "in_unit (Num r) = (0 \<le> r \<and> r \<le> 1)"
| "in_unit _ = False"

section \<open>The click predictor's data\<close>

text \<open>\<^verbatim>\<open>c > 0\<close> on a column, row by row; NaN is greater than nothing.\<close>

fun series_gt_zero :: "column \<Rightarrow> py_error + bool list" where
  "series_gt_zero (IntCol xs) = Inr (map (\<lambda>x. 0 < x) xs)"
| "series_gt_zero (FloatCol xs) =
     Inr (map (\<lambda>x. case x of Num r \<Rightarrow> 0 < r | PosInf \<Rightarrow> True | NegInf \<Rightarrow> False | NaN \<Rightarrow> False) xs)"
| "series_gt_zero (StrCol xs) = Inl TypeError"

text \<open>\<^verbatim>\<open>.astype(int)\<close> on a column of truth values\<close>

definition astype_int :: "bool list \<Rightarrow> column" where
  "astype_int bs = IntCol (map (\<lambda>b. if b then 1 else 0) bs)"

text \<open>\<^verbatim>\<open>df['Clicked'] = (df['Clicks'] > 0).astype(int)\<close>\<close>

definition clicked_cell :: "'g notebook \<Rightarrow> py_error + 'g notebook" where
  "clicked_cell st =
     seq (getitem (df st) ''Clicks'') (\<lambda>c.
     seq (series_gt_zero c) (\<lambda>b.
     seq (setitem (df st) ''Clicked'' (astype_int b)) (\<lambda>d.
     Inr (st\<lparr>df := d\<rparr>))))"

subsection \<open>Label encoding\<close>

text \<open>\<^verbatim>\<open>features = ['Gender', 'Age', 'ad_variant']\<close>\<close>

definition features :: "string list" where
  "features = [''Gender'', ''Age'', ''ad_variant'']"

text \<open>
  \<^verbatim>\<open>d[names]\<close> with a list of names: a new table of these columns, in this order, over
  the same index.
\<close>

fun select_columns :: "dataframe \<Rightarrow> string list \<Rightarrow> py_error + (string \<times> column) list" where
  "select_columns d [] = Inr []"
| "select_columns d (n # ns) =
     seq (getitem d n) (\<lambda>c.
     seq (select_columns d ns) (\<lambda>rest.
     Inr ((n, c) # rest)))"

definition getitems :: "dataframe \<Rightarrow> string list \<Rightarrow> py_error + dataframe" where
  "getitems d names = seq (select_columns d names) (\<lambda>cs. Inr \<lparr>index = index d, cols = cs\<rparr>)"

text \<open>
  \<^verbatim>\<open>.copy()\<close>: tables are values here, so the copy is the table itself, and an
  assignment to a column of the copy is an update of the variable that holds the copy.
\<close>

definition frame_copy :: "dataframe \<Rightarrow> dataframe" where
  "frame_copy d = d"

text \<open>
  scikit-learn's \<^verbatim>\<open>LabelEncoder\<close>. Fitting keeps the distinct values in ascending
  order as \<^verbatim>\<open>classes_\<close>; the code of a value is its position there.
\<close>

fun index_of :: "'a list \<Rightarrow> 'a \<Rightarrow> nat" where
  "index_of [] v = 0"
| "index_of (u # us) v = (if v = u then 0 else Suc (index_of us v))"

definition encode :: "'a list \<Rightarrow> 'a list \<Rightarrow> column" where
  "encode uniques values = IntCol (map (\<lambda>v. int (index_of uniques v)) values)"

fun fit_transform :: "column \<Rightarrow> py_error + (label_encoder \<times> column)" where
  "fit_transform (IntCol xs) = Inr (LabelEncoder (IntCol (unique xs)), encode (unique xs) xs)"
| "fit_transform (StrCol xs) = Inr (LabelEncoder (StrCol (unique xs)), encode (unique xs) xs)"
| "fit_transform (FloatCol xs) = Inl NotModelled"

text \<open>\<^verbatim>\<open>le.transform(values)\<close>: a value that is not among the classes is a \<^verbatim>\<open>ValueError\<close>.\<close>

fun transform :: "label_encoder \<Rightarrow> column \<Rightarrow> py_error + column" where
  "transform (LabelEncoder (IntCol cls)) (IntCol xs) =
     (if list_all (\<lambda>v. v \<in> set cls) xs then Inr (encode cls xs) else Inl ValueError)"
| "transform (LabelEncoder (StrCol cls)) (StrCol xs) =
     (if list_all (\<lambda>v. v \<in> set cls) xs then Inr (encode cls xs) else Inl ValueError)"
| "transform _ _ = Inl NotModelled"

text \<open>
  \<^verbatim>\<open>le.inverse_transform(codes)\<close>: a code that is no position of the classes is a
  \<^verbatim>\<open>ValueError\<close>.
\<close>

definition decode :: "'a list \<Rightarrow> int list \<Rightarrow> py_error + 'a list" where
  "decode cls codes =
     (if list_all (\<lambda>c. 0 \<le> c \<and> c < int (length cls)) codes
      then Inr (map (\<lambda>c. cls ! nat c) codes) else Inl ValueError)"

fun inverse_transform :: "label_encoder \<Rightarrow> column \<Rightarrow> py_error + column" where
  "inverse_transform (LabelEncoder (IntCol cls)) (IntCol codes) =
     seq (decode cls codes) (\<lambda>vs. Inr (IntCol vs))"
| "inverse_transform (LabelEncoder (StrCol cls)) (IntCol codes) =
     seq (decode cls codes) (\<lambda>vs. Inr (StrCol vs))"
| "inverse_transform _ _ = Inl NotModelled"

text \<open>
  \<^verbatim>\<open>for col in features:\<close>

  \<^verbatim>\<open>    le = LabelEncoder()\<close>

  \<^verbatim>\<open>    df_model[col] = le.fit_transform(df_model[col])\<close>

  \<^verbatim>\<open>    le_dict[col] = le\<close>
\<close>

fun encode_loop ::
  "string list \<Rightarrow> dataframe \<Rightarrow> (string \<times> label_encoder) list
     \<Rightarrow> py_error + (dataframe \<times> (string \<times> label_encoder) list)"
where
  "encode_loop [] dm les = Inr (dm, les)"
| "encode_loop (col # rest) dm les =
     seq (getitem dm col) (\<lambda>c.
     seq (fit_transform c) (\<lambda>fitted.
     seq (setitem dm col (snd fitted)) (\<lambda>dm'.
     encode_loop rest dm' (AList.update col (fst fitted) les))))"

text \<open>
  \<^verbatim>\<open>df_model = df[features + ['Clicked']].copy()\<close>

  \<^verbatim>\<open>le_dict = {}\<close>, then the loop.
\<close>

definition encode_cell :: "'g notebook \<Rightarrow> py_error + 'g notebook" where
  "encode_cell st =
     seq (getitems (df st) (features @ [''Clicked''])) (\<lambda>sub.
     seq (encode_loop features (frame_copy sub) []) (\<lambda>enc.
     Inr (st\<lparr>df_model := Some (fst enc), le_dict := Some (snd enc)\<rparr>)))"

subsection \<open>The train/test split\<close>

fun to_cells :: "column \<Rightarrow> cell list" where
  "to_cells (IntCol xs) = map I xs"
| "to_cells (FloatCol xs) = map F xs"
| "to_cells (StrCol xs) = map S xs"

text \<open>\<^verbatim>\<open>d.values\<close>: the table as an array, one row per record.\<close>

definition frame_values :: "dataframe \<Rightarrow> cell list list" where
  "frame_values d = map (\<lambda>k. map (\<lambda>nc. to_cells (snd nc) ! k) (cols d)) [0..<nrows d]"

text \<open>\<^verbatim>\<open>a[indices]\<close>: an index beyond the array is an \<^verbatim>\<open>IndexError\<close>.\<close>

fun safe_indexing :: "'a list \<Rightarrow> nat list \<Rightarrow> py_error + 'a list" where
  "safe_indexing xs [] = Inr []"
| "safe_indexing xs (i # rest) =
     (if i < length xs then seq (safe_indexing xs rest) (\<lambda>r. Inr (xs ! i # r))
      else Inl IndexError)"

text \<open>
  scikit-learn's \<^verbatim>\<open>train_test_split(X, y, test_size=0.2, random_state=seed)\<close>, without
  stratification. The test subset has \<^verbatim>\<open>ceil(0.2 * n)\<close> of the \<open>n\<close> samples, which is
  \<open>(n + 4) div 5\<close>, the training subset has the others, and an empty training subset is
  refused. A generator of its own, seeded with \<open>seed\<close>, permutes \<open>0, ..., n - 1\<close>: the
  first indices of the permutation are the test subset, the next ones the training
  subset. Both arrays are indexed with the same indices.
\<close>

definition train_test_split ::
  "'g np_random \<Rightarrow> 'a list \<Rightarrow> 'b list \<Rightarrow> nat
     \<Rightarrow> py_error + ('a list \<times> 'a list \<times> 'b list \<times> 'b list)"
where
  "train_test_split G xs ys seed =
     (let n = length xs in
      if length ys \<noteq> n then Inl ValueError
      else
        let n_test = (n + 4) div 5; n_train = n - n_test in
        if n_train = 0 then Inl ValueError
        else
          let permutation = fst (np_permutation G n (np_seed G seed));
              ind_test = take n_test permutation;
              ind_train = take n_train (drop n_test permutation)
          in seq (safe_indexing xs ind_train) (\<lambda>x_train.
             seq (safe_indexing xs ind_test) (\<lambda>x_test.
             seq (safe_indexing ys ind_train) (\<lambda>y_train.
             seq (safe_indexing ys ind_test) (\<lambda>y_test.
             Inr (x_train, x_test, y_train, y_test))))))"

text \<open>
  \<^verbatim>\<open>X = df_model[features].values\<close>

  \<^verbatim>\<open>y = df_model['Clicked'].values\<close>

  \<^verbatim>\<open>X_train, X_test, y_train, y_test = train_test_split(X, y, test_size=0.2, random_state=42)\<close>
\<close>

definition split_cell :: "'g np_random \<Rightarrow> 'g notebook \<Rightarrow> py_error + 'g notebook" where
  "split_cell G st =
     seq (var ''df_model'' (df_model st)) (\<lambda>dm.
     seq (getitems dm features) (\<lambda>fx.
     seq (getitem dm ''Clicked'') (\<lambda>c.
     seq (train_test_split G (frame_values fx) (to_cells c) 42) (\<lambda>parts.
     Inr (st\<lparr>X := Some (frame_values fx), y := Some (to_cells c),
             X_train := Some (fst parts), X_test := Some (fst (snd parts)),
             y_train := Some (fst (snd (snd parts))),
             y_test := Some (snd (snd (snd parts)))\<rparr>)))))"

section \<open>The cells in order\<close>

text \<open>
  The cells that assign the tables and arrays, in the notebook's order. The cells
  between and after them (the plots, the z-test on \<^verbatim>\<open>grouped\<close>, the classifier) read
  these variables and assign none of them.
\<close>

definition run_notebook :: "'g np_random \<Rightarrow> 'g notebook \<Rightarrow> py_error + 'g notebook" where
  "run_notebook G st =
     seq (ctr_cell st) (\<lambda>s1.
     seq (ab_cell G s1) (\<lambda>s2.
     seq (clicked_cell s2) (\<lambda>s3.
     seq (encode_cell s3) (\<lambda>s4.
     split_cell G s4))))"

section \<open>A sample run\<close>

text \<open>
  A table of five records, one of them with no impressions, and a kernel state that
  holds it and nothing else.
\<close>

definition sample_table :: dataframe where
  "sample_table =
     \<lparr>index = map Row [0, 1, 2, 3, 4],
      cols = [(''Age'', StrCol [''30-34'', ''45-49'', ''30-34'', ''35-39'', ''40-44'']),
              (''Gender'', StrCol [''M'', ''F'', ''F'', ''M'', ''F'']),
              (''Impressions'', IntCol [100, 200, 0, 50, 400]),
              (''Clicks'', IntCol [10, 0, 0, 5, 100]),
              (''Spend'', FloatCol [Num 1, Num (5 / 2), Num 0, Num (3 / 4), Num 12])]\<rparr>"

definition sample_notebook :: "nat notebook" where
  "sample_notebook =
     \<lparr>np_state = 0, df = sample_table, grouped = None, df_model = None, le_dict = None,
      X = None, y = None, X_train = None, X_test = None, y_train = None, y_test = None\<rparr>"

text \<open>
  A stand-in for numpy's generator in the sample runs: its state is a counter, a choice
  cycles through the options from the counter on, a permutation rotates \<open>0, ..., n - 1\<close>.
\<close>

definition cycle_rng :: "nat np_random" where
  "cycle_rng =
     \<lparr>np_seed = (\<lambda>s. s),
      np_choice = (\<lambda>opts n g.
        (if opts = [] then [] else map (\<lambda>i. opts ! ((g + i) mod length opts)) [0..<n], g + n)),
      np_permutation = (\<lambda>n g. (rotate g [0..<n], Suc g))\<rparr>"

text \<open>A table whose only record, shown as variant \<open>A\<close>, has no impressions and no clicks.\<close>

definition idle_notebook :: "nat notebook" where
  "idle_notebook =
     \<lparr>np_state = 0,
      df = \<lparr>index = [Row 0],
            cols = [(''Age'', StrCol [''30-34'']), (''Gender'', StrCol [''M'']),
                    (''Impressions'', IntCol [0]), (''Clicks'', IntCol [0]),
                    (''Spend'', FloatCol [Num 0]), (''CTR'', FloatCol [NaN]),
                    (''ad_variant'', StrCol [''A''])]\<rparr>,
      grouped = None, df_model = None, le_dict = None,
      X = None, y = None, X_train = None, X_test = None, y_train = None, y_test = None\<rparr>"

text \<open>The sample table after the variants \<open>A, B, A, B, A\<close> have been assigned.\<close>

definition sample_assigned :: "nat notebook" where
  "sample_assigned =
     sample_notebook\<lparr>np_state := 47,
       df := sample_table\<lparr>cols := cols sample_table @
               [(''ad_variant'', StrCol [''A'', ''B'', ''A'', ''B'', ''A''])]\<rparr>\<rparr>"

text \<open>The sample table after the first three cells.\<close>

definition sample_prepared :: "nat notebook" where
  "sample_prepared =
     sample_notebook\<lparr>np_state := 47,
       df := sample_table\<lparr>cols := cols sample_table @
               [(''CTR'', FloatCol [Num (1 / 10), Num 0, NaN, Num (1 / 10), Num (1 / 4)]),
                (''ad_variant'', StrCol [''A'', ''B'', ''A'', ''B'', ''A'']),
                (''Clicked'', IntCol [1, 0, 0, 1, 1])]\<rparr>\<rparr>"

text \<open>A table of seven records, before any cell has run.\<close>

definition seven_notebook :: "nat notebook" where
  "seven_notebook =
     sample_notebook\<lparr>df :=
       \<lparr>index = map Row [0, 1, 2, 3, 4, 5, 6],
        cols = [(''Age'', StrCol [''30-34'', ''45-49'', ''30-34'', ''35-39'', ''40-44'', ''35-39'', ''30-34'']),
                (''Gender'', StrCol [''M'', ''F'', ''F'', ''M'', ''F'', ''M'', ''F'']),
                (''Impressions'', IntCol [100, 200, 0, 50, 400, 80, 120]),
                (''Clicks'', IntCol [10, 0, 0, 5, 100, 8, 6]),
                (''Spend'', FloatCol [Num 1, Num (5 / 2), Num 0, Num (3 / 4), Num 12, Num 2, Num 3])]\<rparr>\<rparr>"

text \<open>
  A table of three records whose impressions of variant \<open>A\<close> sum to \<open>2^63\<close>, before any
  cell has run and after the variants \<open>A, B, A\<close> have been assigned.
\<close>

definition wide_notebook :: "nat notebook" where
  "wide_notebook =
     sample_notebook\<lparr>df :=
       \<lparr>index = map Row [0, 1, 2],
        cols = [(''Age'', StrCol [''30-34'', ''45-49'', ''30-34'']),
                (''Gender'', StrCol [''M'', ''F'', ''F'']),
                (''Impressions'', IntCol [4611686018427387904, 5, 4611686018427387904]),
                (''Clicks'', IntCol [1, 0, 1]),
                (''Spend'', FloatCol [Num 1, Num (5 / 2), Num 0])]\<rparr>\<rparr>"

definition wide_assigned :: "nat notebook" where
  "wide_assigned =
     wide_notebook\<lparr>np_state := 45,
       df := (df wide_notebook)\<lparr>cols := cols (df wide_notebook) @
               [(''ad_variant'', StrCol [''A'', ''B'', ''A''])]\<rparr>\<rparr>"

section \<open>Properties of the click-through rate\<close>

lemma getitem_setitem_same:
  "setitem d name c = Inr d' \<Longrightarrow> getitem d' name = Inr c"
  by (auto simp: setitem_def getitem_def update_conv' split: if_splits)

lemma getitem_setitem_other:
  "setitem d name c = Inr d' \<Longrightarrow> other \<noteq> name \<Longrightarrow> getitem d' other = getitem d other"
  by (auto simp: setitem_def getitem_def update_conv' split: if_splits)

lemma getitem_len:
  "wf_frame d \<Longrightarrow> getitem d name = Inr c \<Longrightarrow> column_len c = nrows d"
  by (auto simp: wf_frame_def getitem_def list_all_iff split: option.splits dest!: map_of_SomeD)

text \<open>
  C3. For every record of a table whose \<open>Clicks\<close> and \<open>Impressions\<close> are integer
  columns, the cell does not raise, and the new column \<open>CTR\<close> holds
  \<open>Clicks / Impressions\<close> where \<open>Impressions > 0\<close> and NaN or an infinity where
  \<open>Impressions = 0\<close>: the zero-impressions case is not guarded.
\<close>

theorem ctr_cell_values:
  assumes wf: "wf_frame (df st)"
    and c: "getitem (df st) ''Clicks'' = Inr (IntCol cs)"
    and i: "getitem (df st) ''Impressions'' = Inr (IntCol ims)"
  shows "\<exists>st' q. ctr_cell st = Inr st' \<and> getitem (df st') ''CTR'' = Inr (FloatCol q) \<and>
           length q = nrows (df st) \<and>
           (\<forall>k < nrows (df st).
              (0 < ims ! k \<longrightarrow> q ! k = Num (of_int (cs ! k) / of_int (ims ! k))) \<and>
              (ims ! k = 0 \<longrightarrow> q ! k \<in> {NaN, PosInf, NegInf}))"
proof -
  let ?n = "nrows (df st)"
  let ?q = "map2 fdiv (map (\<lambda>x. Num (of_int x)) cs) (map (\<lambda>x. Num (of_int x)) ims)"
  have lc: "length cs = ?n" using getitem_len [OF wf c] by simp
  have li: "length ims = ?n" using getitem_len [OF wf i] by simp
  have lq: "length ?q = ?n" using lc li by simp
  obtain d where d: "setitem (df st) ''CTR'' (FloatCol ?q) = Inr d"
    using lq by (simp add: setitem_def)
  have run: "ctr_cell st = Inr (st\<lparr>df := d\<rparr>)"
    using c i d by (simp add: ctr_cell_def seq_def series_truediv_def)
  have col: "getitem (df (st\<lparr>df := d\<rparr>)) ''CTR'' = Inr (FloatCol ?q)"
    using getitem_setitem_same [OF d] by simp
  have rows: "(0 < ims ! k \<longrightarrow> ?q ! k = Num (of_int (cs ! k) / of_int (ims ! k))) \<and>
              (ims ! k = 0 \<longrightarrow> ?q ! k \<in> {NaN, PosInf, NegInf})" if "k < ?n" for k
    using that lc li by simp
  show ?thesis using run col lq rows by blast
qed

theorem ctr_cell_values_witness:
  "\<exists>st' q. ctr_cell sample_notebook = Inr st' \<and>
     getitem (df st') ''CTR'' = Inr (FloatCol q) \<and> length q = 5 \<and>
     q ! 0 = Num (1 / 10) \<and> q ! 2 \<in> {NaN, PosInf, NegInf}"
proof -
  have wf: "wf_frame (df sample_notebook)"
    by (simp add: wf_frame_def nrows_def sample_notebook_def sample_table_def)
  have c: "getitem (df sample_notebook) ''Clicks'' = Inr (IntCol [10, 0, 0, 5, 100])"
    by (simp add: getitem_def sample_notebook_def sample_table_def)
  have i: "getitem (df sample_notebook) ''Impressions'' = Inr (IntCol [100, 200, 0, 50, 400])"
    by (simp add: getitem_def sample_notebook_def sample_table_def)
  have n: "nrows (df sample_notebook) = 5"
    by (simp add: nrows_def sample_notebook_def sample_table_def)
  from ctr_cell_values [OF wf c i] obtain st' q where
    r: "ctr_cell sample_notebook = Inr st'" "getitem (df st') ''CTR'' = Inr (FloatCol q)"
       "length q = nrows (df sample_notebook)"
    and rows: "\<forall>k < nrows (df sample_notebook).
       (0 < [100, 200, 0, 50, 400 :: int] ! k \<longrightarrow>
          q ! k = Num (of_int ([10, 0, 0, 5, 100] ! k) / of_int ([100, 200, 0, 50, 400] ! k))) \<and>
       ([100, 200, 0, 50, 400 :: int] ! k = 0 \<longrightarrow> q ! k \<in> {NaN, PosInf, NegInf})"
    by blast
  have "q ! 0 = Num (1 / 10)" using rows n by simp
  moreover have "q ! 2 \<in> {NaN, PosInf, NegInf}"
  proof -
    have "(2::nat) < nrows (df sample_notebook)" using n by simp
    with rows show ?thesis by fastforce
  qed
  ultimately show ?thesis using r n by auto
qed

section \<open>Properties of the A/B test\<close>

lemma unique_props:
  "set (unique xs) = set xs" "distinct (unique xs)" "sorted (unique xs)"
  by (simp_all add: unique_def)

lemma sum_list_pick:
  fixes v :: int
  assumes "distinct ks" "a \<in> set ks"
  shows "sum_list (map (\<lambda>k. if a = k then v else 0) ks) = v"
proof -
  have zero: "a \<notin> set js \<Longrightarrow> sum_list (map (\<lambda>k. if a = k then v else 0) js) = 0" for js
    by (induction js) auto
  show ?thesis using assms by (induction ks) (auto simp: zero)
qed

subsection \<open>Sums in \<open>int64\<close>\<close>

lemma wrap64_absorb: "wrap64 (wrap64 a + b) = wrap64 (a + b)"
proof -
  have "((a + 2 ^ 63) mod 2 ^ 64 + b) mod 2 ^ 64 = (a + 2 ^ 63 + b) mod (2 ^ 64 :: int)"
    by (rule mod_add_left_eq)
  then show ?thesis by (simp add: wrap64_def algebra_simps)
qed

lemma wrap64_id: "in_int64 x \<Longrightarrow> wrap64 x = x"
  by (simp add: wrap64_def in_int64_def)

lemma foldl_add64: "foldl add64 (wrap64 a) xs = wrap64 (a + sum_list xs)"
proof (induction xs arbitrary: a)
  case Nil
  then show ?case by simp
next
  case (Cons x xs)
  have "foldl add64 (wrap64 a) (x # xs) = foldl add64 (wrap64 (a + x)) xs"
    by (simp add: add64_def wrap64_absorb)
  also have "\<dots> = wrap64 (a + x + sum_list xs)" by (rule Cons.IH)
  finally show ?case by (simp add: add.assoc)
qed

lemma sum64_eq: "sum64 xs = wrap64 (sum_list xs)"
proof -
  have "wrap64 0 = 0" by (simp add: wrap64_def)
  then have "sum64 xs = foldl add64 (wrap64 0) xs" by (simp add: sum64_def)
  then show ?thesis by (simp add: foldl_add64)
qed

lemma group_sum_eq: "group_sum ls xs k = wrap64 (group_total ls xs k)"
  by (simp add: group_sum_def group_total_def sum64_eq)

lemma wrap64_absorb2: "wrap64 (b + wrap64 a) = wrap64 (b + a)"
  using wrap64_absorb [of a b] by (simp add: add.commute)

lemma wrap64_sum_map:
  "wrap64 (sum_list (map (\<lambda>k. wrap64 (f k)) ks)) = wrap64 (sum_list (map f ks))"
proof (induction ks)
  case Nil
  then show ?case by simp
next
  case (Cons k ks)
  let ?S = "sum_list (map (\<lambda>k. wrap64 (f k)) ks)"
  have "wrap64 (sum_list (map (\<lambda>k. wrap64 (f k)) (k # ks))) = wrap64 (wrap64 (f k) + ?S)"
    by simp
  also have "\<dots> = wrap64 (f k + ?S)" by (rule wrap64_absorb)
  also have "\<dots> = wrap64 (f k + wrap64 ?S)" by (rule wrap64_absorb2 [symmetric])
  also have "\<dots> = wrap64 (f k + wrap64 (sum_list (map f ks)))" by (simp only: Cons.IH)
  also have "\<dots> = wrap64 (f k + sum_list (map f ks))" by (rule wrap64_absorb2)
  finally show ?case by simp
qed

lemma map_group_sum:
  "map (group_sum ls xs) ks = map (\<lambda>k. wrap64 (group_total ls xs k)) ks"
  by (rule map_cong [OF refl]) (rule group_sum_eq)

subsection \<open>Exact group totals\<close>

lemma group_total_Cons:
  "group_total (l # ls) (x # xs) k = (if l = k then x else 0) + group_total ls xs k"
  by (simp add: group_total_def group_values_def)

lemma group_total_total:
  assumes "distinct ks" "set ls \<subseteq> set ks" "length ls = length xs"
  shows "sum_list (map (group_total ls xs) ks) = sum_list xs"
  using assms(3,2)
proof (induction ls xs rule: list_induct2)
  case Nil
  then show ?case by (simp add: group_total_def group_values_def)
next
  case (Cons l ls x xs)
  have "sum_list (map (group_total (l # ls) (x # xs)) ks)
      = sum_list (map (\<lambda>k. if l = k then x else 0) ks) + sum_list (map (group_total ls xs) ks)"
    by (induction ks) (simp_all add: group_total_Cons)
  also have "\<dots> = x + sum_list xs"
    using Cons assms(1) by (simp add: sum_list_pick)
  finally show ?case by simp
qed

lemma group_total_bounds:
  assumes "length ls = length cs" "length cs = length ims"
    and "\<forall>k < length cs. 0 \<le> cs ! k \<and> cs ! k \<le> ims ! k"
  shows "0 \<le> group_total ls cs key \<and> group_total ls cs key \<le> group_total ls ims key"
  using assms
proof (induction ls cs ims rule: list_induct3)
  case Nil
  then show ?case by (simp add: group_total_def group_values_def)
next
  case (Cons l ls c cs i ims)
  have hd: "0 \<le> c \<and> c \<le> i" using Cons.prems by force
  have tl: "\<forall>k < length cs. 0 \<le> cs ! k \<and> cs ! k \<le> ims ! k" using Cons.prems by force
  from Cons.IH [OF tl] hd show ?case by (simp add: group_total_Cons)
qed

lemma group_sums_total64:
  assumes "distinct ks" "set ls \<subseteq> set ks" "length ls = length xs"
  shows "sum64 (map (group_sum ls xs) ks) = sum64 xs"
proof -
  have "sum64 (map (group_sum ls xs) ks)
      = wrap64 (sum_list (map (\<lambda>k. wrap64 (group_total ls xs k)) ks))"
    by (simp only: sum64_eq map_group_sum)
  also have "\<dots> = wrap64 (sum_list (map (group_total ls xs) ks))" by (rule wrap64_sum_map)
  also have "\<dots> = sum64 xs" by (simp add: group_total_total [OF assms] sum64_eq)
  finally show ?thesis .
qed

lemma group_sums_total_exact:
  assumes "distinct ks" "set ls \<subseteq> set ks" "length ls = length xs"
    and "\<forall>k \<in> set ks. in_int64 (group_total ls xs k)"
  shows "sum_list (map (group_sum ls xs) ks) = sum_list xs"
proof -
  have "map (group_sum ls xs) ks = map (group_total ls xs) ks"
    using assms(4) by (simp add: map_group_sum wrap64_id)
  then have "sum_list (map (group_sum ls xs) ks) = sum_list (map (group_total ls xs) ks)"
    by (rule arg_cong)
  also have "\<dots> = sum_list xs" by (rule group_total_total [OF assms(1,2,3)])
  finally show ?thesis .
qed

subsection \<open>The groups of the aggregation\<close>

lemma aggregate_variants_result:
  assumes c: "getitem (df st) ''Clicks'' = Inr (IntCol cs)"
    and i: "getitem (df st) ''Impressions'' = Inr (IntCol ims)"
    and v: "getitem (df st) ''ad_variant'' = Inr (StrCol ls)"
  shows "aggregate_variants st =
    Inr (st\<lparr>grouped := Some
      \<lparr>index = map Key (unique ls),
       cols = [(''Impressions'', IntCol (map (group_sum ls ims) (unique ls))),
               (''Clicks'', IntCol (map (group_sum ls cs) (unique ls))),
               (''CTR'', FloatCol (map2 fdiv
                   (map (\<lambda>x. Num (of_int x)) (map (group_sum ls cs) (unique ls)))
                   (map (\<lambda>x. Num (of_int x)) (map (group_sum ls ims) (unique ls)))))]\<rparr>\<rparr>)"
  using c i v
  by (simp add: aggregate_variants_def groupby_sum_def seq_def getitem_def setitem_def
      series_truediv_def nrows_def)

lemma aggregate_variants_key:
  assumes "aggregate_variants st = Inr st'"
  shows "\<exists>ls. getitem (df st) ''ad_variant'' = Inr (StrCol ls)"
  using assms
  by (auto simp: aggregate_variants_def groupby_sum_def seq_def split: sum.splits column.splits)


text \<open>
  C4, as amended. In a table whose records all have \<open>0 \<le> Clicks \<le> Impressions\<close> and in
  which no group's impressions sum to \<open>2^63\<close> or more, every group of the aggregation has
  \<open>0 \<le> sum of Clicks \<le> sum of Impressions\<close>; a group whose impressions sum to more
  than zero has a click-through rate between 0 and 1, and a group whose impressions sum
  to zero has the rate NaN.
\<close>

theorem aggregate_variants_bounds:
  assumes run: "aggregate_variants st = Inr st'"
    and wf: "wf_frame (df st)"
    and c: "getitem (df st) ''Clicks'' = Inr (IntCol cs)"
    and i: "getitem (df st) ''Impressions'' = Inr (IntCol ims)"
    and v: "getitem (df st) ''ad_variant'' = Inr (StrCol ls)"
    and valid: "\<forall>k < nrows (df st). 0 \<le> cs ! k \<and> cs ! k \<le> ims ! k"
    and fits: "\<forall>k \<in> set ls. group_total ls ims k < 2 ^ 63"
  shows "\<exists>g sc si q. grouped st' = Some g \<and>
           getitem g ''Clicks'' = Inr (IntCol sc) \<and>
           getitem g ''Impressions'' = Inr (IntCol si) \<and>
           getitem g ''CTR'' = Inr (FloatCol q) \<and>
           length sc = nrows g \<and> length si = nrows g \<and> length q = nrows g \<and>
           (\<forall>j < nrows g. 0 \<le> sc ! j \<and> sc ! j \<le> si ! j \<and>
              (0 < si ! j \<longrightarrow> in_unit (q ! j)) \<and> (si ! j = 0 \<longrightarrow> q ! j = NaN))"
proof -
  let ?ks = "unique ls"
  let ?sc = "map (group_sum ls cs) ?ks"
  let ?si = "map (group_sum ls ims) ?ks"
  let ?q = "map2 fdiv (map (\<lambda>x. Num (of_int x)) ?sc) (map (\<lambda>x. Num (of_int x)) ?si)"
  let ?g = "\<lparr>index = map Key ?ks,
             cols = [(''Impressions'', IntCol ?si), (''Clicks'', IntCol ?sc), (''CTR'', FloatCol ?q)]\<rparr>"
  have st': "st' = st\<lparr>grouped := Some ?g\<rparr>"
    using run aggregate_variants_result [OF c i v] by simp
  have lc: "length cs = nrows (df st)" using getitem_len [OF wf c] by simp
  have li: "length ims = nrows (df st)" using getitem_len [OF wf i] by simp
  have ll: "length ls = nrows (df st)" using getitem_len [OF wf v] by simp
  have exact: "0 \<le> group_total ls cs k \<and> group_total ls cs k \<le> group_total ls ims k" for k
    using group_total_bounds [of ls cs ims k] lc li ll valid by simp
  have bounds: "0 \<le> group_sum ls cs k \<and> group_sum ls cs k \<le> group_sum ls ims k"
    if "k \<in> set ls" for k
  proof -
    have "group_total ls ims k < 2 ^ 63" using fits that by blast
    then have "in_int64 (group_total ls cs k)" "in_int64 (group_total ls ims k)"
      using exact [of k] by (simp_all add: in_int64_def)
    then show ?thesis using exact [of k] by (simp add: group_sum_eq wrap64_id)
  qed
  have rows: "0 \<le> ?sc ! j \<and> ?sc ! j \<le> ?si ! j \<and>
      (0 < ?si ! j \<longrightarrow> in_unit (?q ! j)) \<and> (?si ! j = 0 \<longrightarrow> ?q ! j = NaN)"
    if "j < nrows ?g" for j
  proof -
    have "?ks ! j \<in> set ?ks" using that by (simp add: nrows_def)
    then have "?ks ! j \<in> set ls" by (simp add: unique_props)
    from bounds [OF this] show ?thesis using that by (simp add: nrows_def)
  qed
  have "grouped st' = Some ?g" by (simp add: st')
  moreover have "getitem ?g ''Clicks'' = Inr (IntCol ?sc)" by (simp add: getitem_def)
  moreover have "getitem ?g ''Impressions'' = Inr (IntCol ?si)" by (simp add: getitem_def)
  moreover have "getitem ?g ''CTR'' = Inr (FloatCol ?q)" by (simp add: getitem_def)
  moreover have "length ?sc = nrows ?g" "length ?si = nrows ?g" "length ?q = nrows ?g"
    by (simp_all add: nrows_def)
  ultimately show ?thesis using rows by blast
qed

lemma sample_assigned_facts:
  "wf_frame (df sample_assigned)"
  "getitem (df sample_assigned) ''Clicks'' = Inr (IntCol [10, 0, 0, 5, 100])"
  "getitem (df sample_assigned) ''Impressions'' = Inr (IntCol [100, 200, 0, 50, 400])"
  "getitem (df sample_assigned) ''ad_variant'' = Inr (StrCol [''A'', ''B'', ''A'', ''B'', ''A''])"
  "nrows (df sample_assigned) = 5"
  by (simp_all add: wf_frame_def nrows_def getitem_def sample_assigned_def sample_notebook_def
      sample_table_def)

lemma below_five: "(\<forall>k < (5::nat). P k) \<longleftrightarrow> P 0 \<and> P 1 \<and> P 2 \<and> P 3 \<and> P 4"
proof -
  have "k < 5 \<longleftrightarrow> k = 0 \<or> k = 1 \<or> k = 2 \<or> k = 3 \<or> k = 4" for k :: nat
    by arith
  then show ?thesis by auto
qed

lemma sample_assigned_groups:
  "unique [''A'', ''B'', ''A'', ''B'', ''A''] = [''A'', ''B'']"
  "group_sum [''A'', ''B'', ''A'', ''B'', ''A''] [100, 200, 0, 50, 400] ''A'' = 500"
  "group_sum [''A'', ''B'', ''A'', ''B'', ''A''] [100, 200, 0, 50, 400] ''B'' = 250"
  "group_total [''A'', ''B'', ''A'', ''B'', ''A''] [100, 200, 0, 50, 400] ''A'' = 500"
  "group_total [''A'', ''B'', ''A'', ''B'', ''A''] [100, 200, 0, 50, 400] ''B'' = 250"
  "group_sum [''A'', ''B'', ''A'', ''B'', ''A''] [10, 0, 0, 5, 100] ''A'' = 110"
  "group_sum [''A'', ''B'', ''A'', ''B'', ''A''] [10, 0, 0, 5, 100] ''B'' = 5"
  by code_simp+

theorem aggregate_variants_bounds_witness:
  "\<exists>st' g sc si q. aggregate_variants sample_assigned = Inr st' \<and> grouped st' = Some g \<and>
     getitem g ''Clicks'' = Inr (IntCol sc) \<and> getitem g ''Impressions'' = Inr (IntCol si) \<and>
     getitem g ''CTR'' = Inr (FloatCol q) \<and> nrows g = 2 \<and>
     sc ! 0 \<le> si ! 0 \<and> in_unit (q ! 0) \<and> si ! 0 = 500"
proof -
  note f = sample_assigned_facts
  note u = sample_assigned_groups
  obtain st' where run: "aggregate_variants sample_assigned = Inr st'"
    using aggregate_variants_result [OF f(2) f(3) f(4)] by blast
  have valid: "\<forall>k < nrows (df sample_assigned).
      0 \<le> [10, 0, 0, 5, 100 :: int] ! k \<and> [10, 0, 0, 5, 100] ! k \<le> [100, 200, 0, 50, 400 :: int] ! k"
    by (simp add: f(5) below_five)
  have fits: "\<forall>k \<in> set [''A'', ''B'', ''A'', ''B'', ''A''].
      group_total [''A'', ''B'', ''A'', ''B'', ''A''] [100, 200, 0, 50, 400] k < 2 ^ 63"
    by (simp add: u(4) u(5))
  from aggregate_variants_bounds [OF run f(1) f(2) f(3) f(4) valid fits]
  obtain g sc si q where g: "grouped st' = Some g" "getitem g ''Clicks'' = Inr (IntCol sc)"
      "getitem g ''Impressions'' = Inr (IntCol si)" "getitem g ''CTR'' = Inr (FloatCol q)"
    and rows: "\<forall>j < nrows g. 0 \<le> sc ! j \<and> sc ! j \<le> si ! j \<and>
              (0 < si ! j \<longrightarrow> in_unit (q ! j)) \<and> (si ! j = 0 \<longrightarrow> q ! j = NaN)"
    by blast
  have st': "grouped st' = Some
      \<lparr>index = [Key ''A'', Key ''B''],
       cols = [(''Impressions'', IntCol [500, 250]), (''Clicks'', IntCol [110, 5]),
               (''CTR'', FloatCol [Num (11 / 50), Num (1 / 50)])]\<rparr>"
    using run aggregate_variants_result [OF f(2) f(3) f(4)] by (auto simp: u)
  have n: "nrows g = 2" and si: "si = [500, 250]"
    using g st' by (auto simp: nrows_def getitem_def)
  have "0 < nrows g" using n by simp
  with rows have "sc ! 0 \<le> si ! 0 \<and> (0 < si ! 0 \<longrightarrow> in_unit (q ! 0))" by blast
  then show ?thesis using run g n si by auto
qed

text \<open>
  C4 as stated fails twice. The only record of the first table has no impressions and
  no clicks: it satisfies \<open>0 \<le> Clicks \<le> Impressions\<close>, and the rate of its group is NaN,
  which is not between 0 and 1. In the second table every record has
  \<open>0 \<le> Clicks \<le> Impressions\<close>, the impressions of variant \<open>A\<close> sum to \<open>2^63\<close>, and the
  \<^verbatim>\<open>int64\<close> sum is \<open>-2^63\<close>: below the group's two clicks, with a negative rate.
\<close>

theorem aggregate_variants_ctr_counterexample:
  "map_sum id grouped (aggregate_variants idle_notebook) =
     Inr (Some \<lparr>index = [Key ''A''],
                 cols = [(''Impressions'', IntCol [0]), (''Clicks'', IntCol [0]),
                         (''CTR'', FloatCol [NaN])]\<rparr>) \<and>
   \<not> in_unit NaN \<and>
   map_sum id grouped (aggregate_variants wide_assigned) =
     Inr (Some \<lparr>index = [Key ''A'', Key ''B''],
                 cols = [(''Impressions'', IntCol [- 9223372036854775808, 5]),
                         (''Clicks'', IntCol [2, 0]),
                         (''CTR'', FloatCol [Num (- (1 / 4611686018427387904)), Num 0])]\<rparr>) \<and>
   \<not> (2 :: int) \<le> - 9223372036854775808 \<and>
   \<not> in_unit (Num (- (1 / 4611686018427387904)))"
  by code_simp

subsection \<open>The assignment is reproducible\<close>

lemma assign_variants_result:
  "assign_variants G st =
     (let ls = fst (np_choice G [''A'', ''B''] (nrows (df st)) (np_seed G 42)) in
      if length ls \<noteq> nrows (df st) then Inl ValueError
      else Inr (st\<lparr>np_state := snd (np_choice G [''A'', ''B''] (nrows (df st)) (np_seed G 42)),
                   df := (df st)\<lparr>cols := AList.update ''ad_variant'' (StrCol ls) (cols (df st))\<rparr>\<rparr>))"
  by (simp add: assign_variants_def setitem_def seq_def Let_def)

text \<open>
  Two runs of the assignment on the same table, whatever the generator's state and the
  other variables were before, give the same column \<open>ad_variant\<close> and leave the generator
  in the same state: the seed is set before the draw.
\<close>

lemma assign_variants_reproducible:
  assumes same: "df s1 = df s2"
    and run: "assign_variants G s1 = Inr t1"
  shows "\<exists>t2 ls. assign_variants G s2 = Inr t2 \<and>
           ls = fst (np_choice G [''A'', ''B''] (nrows (df s1)) (np_seed G 42)) \<and>
           length ls = nrows (df s1) \<and>
           getitem (df t1) ''ad_variant'' = Inr (StrCol ls) \<and>
           getitem (df t2) ''ad_variant'' = Inr (StrCol ls) \<and>
           df t2 = df t1 \<and> np_state t2 = np_state t1"
  using run same
  by (auto simp: assign_variants_result Let_def getitem_def update_conv' split: if_splits)

subsection \<open>The groups partition the records\<close>

lemma unique_position:
  assumes "v \<in> set xs"
  shows "\<exists>!j. j < length (unique xs) \<and> unique xs ! j = v"
proof -
  have "v \<in> set (unique xs)" using assms by (simp add: unique_props)
  then obtain j where j: "j < length (unique xs)" "unique xs ! j = v"
    by (auto simp: in_set_conv_nth)
  moreover have "j' = j" if "j' < length (unique xs)" "unique xs ! j' = v" for j'
    using that j unique_props(2) [of xs] by (metis nth_eq_iff_index_eq)
  ultimately show ?thesis by blast
qed

text \<open>
  C10, as amended. The aggregation partitions the records: every record's label is the
  key of exactly one group, and each group's entry is the \<^verbatim>\<open>int64\<close> sum over its
  records. Added in \<^verbatim>\<open>int64\<close>, the groups' sums of \<open>Impressions\<close> give the \<^verbatim>\<open>int64\<close> sum
  of the whole column, and so do those of \<open>Clicks\<close>; when no group's exact sum leaves the
  range of \<^verbatim>\<open>int64\<close>, the groups' sums add up to the exact total of the table. When the
  labels drawn are \<open>A\<close> and \<open>B\<close>, this reads: the sum of group \<open>A\<close> plus the sum of group
  \<open>B\<close> is the total.
\<close>

theorem ab_cell_partition:
  assumes run: "ab_cell G st = Inr st'"
    and wf: "wf_frame (df st)"
    and c: "getitem (df st) ''Clicks'' = Inr (IntCol cs)"
    and i: "getitem (df st) ''Impressions'' = Inr (IntCol ims)"
  shows "\<exists>ls g sc si.
           ls = fst (np_choice G [''A'', ''B''] (nrows (df st)) (np_seed G 42)) \<and>
           getitem (df st') ''ad_variant'' = Inr (StrCol ls) \<and> length ls = nrows (df st) \<and>
           grouped st' = Some g \<and> index g = map Key (unique ls) \<and>
           getitem g ''Impressions'' = Inr (IntCol si) \<and>
           getitem g ''Clicks'' = Inr (IntCol sc) \<and>
           si = map (group_sum ls ims) (unique ls) \<and>
           sc = map (group_sum ls cs) (unique ls) \<and>
           (\<forall>k < nrows (df st). \<exists>!j. j < nrows g \<and> index g ! j = Key (ls ! k)) \<and>
           sum64 si = sum64 ims \<and> sum64 sc = sum64 cs \<and>
           ((\<forall>k \<in> set ls. in_int64 (group_total ls ims k)) \<longrightarrow> sum_list si = sum_list ims) \<and>
           ((\<forall>k \<in> set ls. in_int64 (group_total ls cs k)) \<longrightarrow> sum_list sc = sum_list cs) \<and>
           (set ls \<subseteq> {''A'', ''B''} \<longrightarrow>
              add64 (group_sum ls ims ''A'') (group_sum ls ims ''B'') = sum64 ims \<and>
              add64 (group_sum ls cs ''A'') (group_sum ls cs ''B'') = sum64 cs \<and>
              (in_int64 (group_total ls ims ''A'') \<and> in_int64 (group_total ls ims ''B'') \<longrightarrow>
                 group_sum ls ims ''A'' + group_sum ls ims ''B'' = sum_list ims) \<and>
              (in_int64 (group_total ls cs ''A'') \<and> in_int64 (group_total ls cs ''B'') \<longrightarrow>
                 group_sum ls cs ''A'' + group_sum ls cs ''B'' = sum_list cs))"
proof -
  let ?ls = "fst (np_choice G [''A'', ''B''] (nrows (df st)) (np_seed G 42))"
  let ?ks = "unique ?ls"
  obtain s1 where a: "assign_variants G st = Inr s1" and b: "aggregate_variants s1 = Inr st'"
    using run by (auto simp: ab_cell_def seq_def split: sum.splits)
  have ll: "length ?ls = nrows (df st)"
    and s1: "df s1 = (df st)\<lparr>cols := AList.update ''ad_variant'' (StrCol ?ls) (cols (df st))\<rparr>"
    using a by (auto simp: assign_variants_result Let_def split: if_splits)
  have v1: "getitem (df s1) ''ad_variant'' = Inr (StrCol ?ls)"
    and c1: "getitem (df s1) ''Clicks'' = Inr (IntCol cs)"
    and i1: "getitem (df s1) ''Impressions'' = Inr (IntCol ims)"
    using c i by (simp_all add: s1 getitem_def update_conv')
  let ?si = "map (group_sum ?ls ims) ?ks"
  let ?sc = "map (group_sum ?ls cs) ?ks"
  let ?g = "\<lparr>index = map Key ?ks,
             cols = [(''Impressions'', IntCol ?si), (''Clicks'', IntCol ?sc),
               (''CTR'', FloatCol (map2 fdiv (map (\<lambda>x. Num (of_int x)) ?sc)
                                            (map (\<lambda>x. Num (of_int x)) ?si)))]\<rparr>"
  have st': "st' = s1\<lparr>grouped := Some ?g\<rparr>"
    using b aggregate_variants_result [OF c1 i1 v1] by simp
  have lc: "length ?ls = length cs" using getitem_len [OF wf c] ll by simp
  have li: "length ?ls = length ims" using getitem_len [OF wf i] ll by simp
  have dk: "distinct ?ks" and sk: "set ?ls \<subseteq> set ?ks" by (simp_all add: unique_props)
  have t64_i: "sum64 ?si = sum64 ims" by (rule group_sums_total64 [OF dk sk li])
  have t64_c: "sum64 ?sc = sum64 cs" by (rule group_sums_total64 [OF dk sk lc])
  have ex_i: "sum_list ?si = sum_list ims" if "\<forall>k \<in> set ?ls. in_int64 (group_total ?ls ims k)"
    using group_sums_total_exact [OF dk sk li] that by (simp add: unique_props)
  have ex_c: "sum_list ?sc = sum_list cs" if "\<forall>k \<in> set ?ls. in_int64 (group_total ?ls cs k)"
    using group_sums_total_exact [OF dk sk lc] that by (simp add: unique_props)
  have once: "\<exists>!j. j < nrows ?g \<and> index ?g ! j = Key (?ls ! k)" if "k < nrows (df st)" for k
  proof -
    have "?ls ! k \<in> set ?ls" using that ll by simp
    from unique_position [OF this] obtain j where
      j: "j < length ?ks" "?ks ! j = ?ls ! k"
      and only: "\<And>j'. j' < length ?ks \<Longrightarrow> ?ks ! j' = ?ls ! k \<Longrightarrow> j' = j"
      by blast
    show ?thesis
    proof (rule ex1I [of _ j])
      show "j < nrows ?g \<and> index ?g ! j = Key (?ls ! k)" using j by (simp add: nrows_def)
    next
      fix j' assume "j' < nrows ?g \<and> index ?g ! j' = Key (?ls ! k)"
      then show "j' = j" using only [of j'] by (auto simp: nrows_def)
    qed
  qed
  have two: "add64 (group_sum ?ls ims ''A'') (group_sum ?ls ims ''B'') = sum64 ims \<and>
      add64 (group_sum ?ls cs ''A'') (group_sum ?ls cs ''B'') = sum64 cs \<and>
      (in_int64 (group_total ?ls ims ''A'') \<and> in_int64 (group_total ?ls ims ''B'') \<longrightarrow>
         group_sum ?ls ims ''A'' + group_sum ?ls ims ''B'' = sum_list ims) \<and>
      (in_int64 (group_total ?ls cs ''A'') \<and> in_int64 (group_total ?ls cs ''B'') \<longrightarrow>
         group_sum ?ls cs ''A'' + group_sum ?ls cs ''B'' = sum_list cs)"
    if ab: "set ?ls \<subseteq> {''A'', ''B''}"
  proof -
    have d2: "distinct [''A'', ''B'']" and s2: "set ?ls \<subseteq> set [''A'', ''B'']"
      using ab by simp_all
    have tot_i: "group_total ?ls ims ''A'' + group_total ?ls ims ''B'' = sum_list ims"
      using group_total_total [OF d2 s2 li] by simp
    have tot_c: "group_total ?ls cs ''A'' + group_total ?ls cs ''B'' = sum_list cs"
      using group_total_total [OF d2 s2 lc] by simp
    have "add64 (group_sum ?ls ims ''A'') (group_sum ?ls ims ''B'') = sum64 ims"
      by (simp add: add64_def group_sum_eq wrap64_absorb wrap64_absorb2 sum64_eq tot_i)
    moreover have "add64 (group_sum ?ls cs ''A'') (group_sum ?ls cs ''B'') = sum64 cs"
      by (simp add: add64_def group_sum_eq wrap64_absorb wrap64_absorb2 sum64_eq tot_c)
    moreover have "group_sum ?ls ims ''A'' + group_sum ?ls ims ''B'' = sum_list ims"
      if "in_int64 (group_total ?ls ims ''A'') \<and> in_int64 (group_total ?ls ims ''B'')"
      using that tot_i by (simp add: group_sum_eq wrap64_id)
    moreover have "group_sum ?ls cs ''A'' + group_sum ?ls cs ''B'' = sum_list cs"
      if "in_int64 (group_total ?ls cs ''A'') \<and> in_int64 (group_total ?ls cs ''B'')"
      using that tot_c by (simp add: group_sum_eq wrap64_id)
    ultimately show ?thesis by blast
  qed
  have "getitem (df st') ''ad_variant'' = Inr (StrCol ?ls)" using v1 by (simp add: st')
  moreover have "grouped st' = Some ?g" by (simp add: st')
  moreover have "index ?g = map Key ?ks" by simp
  moreover have "getitem ?g ''Impressions'' = Inr (IntCol ?si)" by (simp add: getitem_def)
  moreover have "getitem ?g ''Clicks'' = Inr (IntCol ?sc)" by (simp add: getitem_def)
  ultimately show ?thesis using ll t64_i t64_c ex_i ex_c once two by blast
qed

theorem ab_cell_partition_witness:
  "\<exists>st' g. ab_cell cycle_rng sample_notebook = Inr st' \<and>
     getitem (df st') ''ad_variant'' = Inr (StrCol [''A'', ''B'', ''A'', ''B'', ''A'']) \<and>
     grouped st' = Some g \<and> index g = [Key ''A'', Key ''B''] \<and>
     getitem g ''Impressions'' = Inr (IntCol [500, 250]) \<and>
     getitem g ''Clicks'' = Inr (IntCol [110, 5]) \<and>
     sum64 [500, 250] = sum64 [100, 200, 0, 50, 400] \<and>
     sum_list [500, 250] = sum_list [100, 200, 0, 50, 400 :: int]"
proof -
  have n: "nrows (df sample_notebook) = 5"
    by (simp add: nrows_def sample_notebook_def sample_table_def)
  have wf: "wf_frame (df sample_notebook)"
    by (simp add: wf_frame_def nrows_def sample_notebook_def sample_table_def)
  have c: "getitem (df sample_notebook) ''Clicks'' = Inr (IntCol [10, 0, 0, 5, 100])"
    by (simp add: getitem_def sample_notebook_def sample_table_def)
  have i: "getitem (df sample_notebook) ''Impressions'' = Inr (IntCol [100, 200, 0, 50, 400])"
    by (simp add: getitem_def sample_notebook_def sample_table_def)
  have ls: "fst (np_choice cycle_rng [''A'', ''B''] 5 (np_seed cycle_rng 42))
      = [''A'', ''B'', ''A'', ''B'', ''A'']"
    by code_simp
  note u = sample_assigned_groups
  obtain s1 where a: "assign_variants cycle_rng sample_notebook = Inr s1"
    by (simp add: assign_variants_result ls n Let_def)
  have s1: "df s1 = (df sample_notebook)\<lparr>cols := AList.update ''ad_variant''
      (StrCol [''A'', ''B'', ''A'', ''B'', ''A'']) (cols (df sample_notebook))\<rparr>"
    using a by (auto simp: assign_variants_result ls n Let_def)
  have "getitem (df s1) ''Clicks'' = Inr (IntCol [10, 0, 0, 5, 100])"
      "getitem (df s1) ''Impressions'' = Inr (IntCol [100, 200, 0, 50, 400])"
      "getitem (df s1) ''ad_variant'' = Inr (StrCol [''A'', ''B'', ''A'', ''B'', ''A''])"
    using c i by (simp_all add: s1 getitem_def update_conv')
  from aggregate_variants_result [OF this]
  obtain st' where run: "ab_cell cycle_rng sample_notebook = Inr st'"
    using a by (simp add: ab_cell_def seq_def)
  from ab_cell_partition [OF run wf c i] obtain g si sc where
    "getitem (df st') ''ad_variant'' = Inr (StrCol [''A'', ''B'', ''A'', ''B'', ''A''])"
    "grouped st' = Some g" "index g = [Key ''A'', Key ''B'']"
    "getitem g ''Impressions'' = Inr (IntCol si)" "getitem g ''Clicks'' = Inr (IntCol sc)"
    "si = [500, 250]" "sc = [110, 5]" "sum64 si = sum64 [100, 200, 0, 50, 400]"
    by (auto simp: ls n u)
  moreover have "sum_list [500, 250] = sum_list [100, 200, 0, 50, 400 :: int]" by simp
  ultimately show ?thesis using run by auto
qed

text \<open>
  C10 as stated fails: the impressions of variant \<open>A\<close> sum to \<open>2^63\<close>, the aggregation's
  entry is the \<^verbatim>\<open>int64\<close> sum \<open>-2^63\<close>, and the two groups do not add up to the table's
  total \<open>2^63 + 5\<close>.
\<close>

theorem ab_cell_partition_counterexample:
  "map_sum id grouped (ab_cell cycle_rng wide_notebook) =
     Inr (Some \<lparr>index = [Key ''A'', Key ''B''],
                 cols = [(''Impressions'', IntCol [- 9223372036854775808, 5]),
                         (''Clicks'', IntCol [2, 0]),
                         (''CTR'', FloatCol [Num (- (1 / 4611686018427387904)), Num 0])]\<rparr>) \<and>
   sum_list [- 9223372036854775808, 5 :: int]
     \<noteq> sum_list [4611686018427387904, 5, 4611686018427387904]"
  by code_simp

section \<open>Properties of the label encoding\<close>

lemma index_of_nth:
  "v \<in> set cls \<Longrightarrow> index_of cls v < length cls \<and> cls ! index_of cls v = v"
  by (induction cls) auto

lemma index_of_inj:
  assumes "v \<in> set cls" "w \<in> set cls" "index_of cls v = index_of cls w"
  shows "v = w"
proof -
  have "cls ! index_of cls v = cls ! index_of cls w" by (simp only: assms(3))
  moreover have "cls ! index_of cls v = v" using index_of_nth [OF assms(1)] by (rule conjunct2)
  moreover have "cls ! index_of cls w = w" using index_of_nth [OF assms(2)] by (rule conjunct2)
  ultimately show ?thesis by (rule box_equals)
qed

lemma index_of_mono:
  fixes cls :: "'a::linorder list"
  assumes "sorted cls" "distinct cls" "v \<in> set cls" "w \<in> set cls"
  shows "v < w \<longleftrightarrow> index_of cls v < index_of cls w"
proof -
  let ?i = "index_of cls v" and ?j = "index_of cls w"
  have i: "?i < length cls" "cls ! ?i = v" and j: "?j < length cls" "cls ! ?j = w"
    using index_of_nth [OF assms(3)] index_of_nth [OF assms(4)] by blast+
  have strict: "sorted_wrt (<) cls" using assms(1,2) by (simp add: strict_sorted_iff)
  have up: "a < b \<Longrightarrow> b < length cls \<Longrightarrow> cls ! a < cls ! b" for a b
    using strict by (simp add: sorted_wrt_nth_less)
  have lt: "w < v" if "?j < ?i"
  proof -
    have "cls ! ?j < cls ! ?i" using that i(1) by (rule up)
    then show ?thesis by (simp only: i(2) j(2))
  qed
  have gt: "v < w" if "?i < ?j"
  proof -
    have "cls ! ?i < cls ! ?j" using that j(1) by (rule up)
    then show ?thesis by (simp only: i(2) j(2))
  qed
  have eq: "v = w" if "?i = ?j"
    using assms(3,4) that by (rule index_of_inj)
  show ?thesis
  proof
    assume vw: "v < w"
    show "?i < ?j"
    proof (rule ccontr)
      assume "\<not> ?i < ?j"
      then consider "?j < ?i" | "?i = ?j" by arith
      then show False
      proof cases
        case 1
        from lt [OF 1] vw show False by (rule less_asym)
      next
        case 2
        have "v = w" using 2 by (rule eq)
        with vw show False by blast
      qed
    qed
  next
    assume "?i < ?j"
    then show "v < w" by (rule gt)
  qed
qed

lemma decode_encode:
  assumes "set xs \<subseteq> set cls"
  shows "decode cls (map (\<lambda>v. int (index_of cls v)) xs) = Inr xs"
proof -
  have ok: "index_of cls v < length cls" and inv: "cls ! index_of cls v = v"
    if "v \<in> set xs" for v
    using that assms index_of_nth [of v cls] by blast+
  have "list_all (\<lambda>c. 0 \<le> c \<and> c < int (length cls)) (map (\<lambda>v. int (index_of cls v)) xs)"
    using ok by (simp add: list_all_iff)
  moreover have "map (\<lambda>c. cls ! nat c) (map (\<lambda>v. int (index_of cls v)) xs) = xs"
    using inv by (induction xs) simp_all
  ultimately show ?thesis by (simp only: decode_def if_True)
qed


lemma getitem_Inr: "getitem d n = Inr c \<longleftrightarrow> map_of (cols d) n = Some c"
  by (simp add: getitem_def split: option.splits)

lemma select_columns_result:
  assumes "select_columns d names = Inr cs"
  shows "map fst cs = names \<and> (\<forall>n \<in> set names. map_of cs n = map_of (cols d) n)"
  using assms
proof (induction names arbitrary: cs)
  case Nil
  then show ?case by simp
next
  case (Cons n ns)
  from Cons.prems obtain c rest where
    c: "getitem d n = Inr c" and rest: "select_columns d ns = Inr rest" and cs: "cs = (n, c) # rest"
    by (auto simp: seq_def split: sum.splits)
  from Cons.IH [OF rest] c show ?case by (auto simp: cs getitem_Inr)
qed

lemma getitems_result:
  assumes "getitems d names = Inr sub"
  shows "index sub = index d \<and> map fst (cols sub) = names \<and>
         (\<forall>n \<in> set names. getitem sub n = getitem d n)"
proof -
  from assms obtain cs where cs: "select_columns d names = Inr cs"
    and sub: "sub = \<lparr>index = index d, cols = cs\<rparr>"
    by (auto simp: getitems_def seq_def split: sum.splits)
  from select_columns_result [OF cs] show ?thesis by (simp add: sub getitem_def)
qed

lemma encode_loop_result:
  assumes "encode_loop names dm les = Inr (dm', les')" "distinct names"
  shows "index dm' = index dm \<and>
         (\<forall>n. n \<notin> set names \<longrightarrow> getitem dm' n = getitem dm n \<and> map_of les' n = map_of les n) \<and>
         (\<forall>n \<in> set names. \<exists>c le codes. getitem dm n = Inr c \<and> fit_transform c = Inr (le, codes) \<and>
             column_len codes = nrows dm \<and> getitem dm' n = Inr codes \<and> map_of les' n = Some le)"
  using assms
proof (induction names arbitrary: dm les)
  case Nil
  then show ?case by simp
next
  case (Cons col rest)
  from Cons.prems(1) obtain c le codes dm1 where
    c: "getitem dm col = Inr c" and fit: "fit_transform c = Inr (le, codes)"
    and set: "setitem dm col codes = Inr dm1"
    and loop: "encode_loop rest dm1 (AList.update col le les) = Inr (dm', les')"
    by (auto simp: seq_def split: sum.splits)
  have d: "distinct rest" and fresh: "col \<notin> set rest" using Cons.prems(2) by simp_all
  note IH = Cons.IH [OF loop d]
  have len: "column_len codes = nrows dm" and idx: "index dm1 = index dm"
    using set by (auto simp: setitem_def split: if_splits)
  have same: "getitem dm1 col = Inr codes" using getitem_setitem_same [OF set] .
  have other: "getitem dm1 n = getitem dm n" if "n \<noteq> col" for n
    using getitem_setitem_other [OF set that] .
  have n1: "nrows dm1 = nrows dm" using idx by (simp add: nrows_def)
  have a: "index dm' = index dm" using IH idx by simp
  have b: "getitem dm' n = getitem dm n \<and> map_of les' n = map_of les n"
    if "n \<notin> set (col # rest)" for n
    using that IH other [of n] by (simp add: update_conv')
  have hd: "getitem dm' col = Inr codes \<and> map_of les' col = Some le"
    using IH fresh same by (simp add: update_conv')
  have tl: "\<exists>c le codes. getitem dm n = Inr c \<and> fit_transform c = Inr (le, codes) \<and>
      column_len codes = nrows dm \<and> getitem dm' n = Inr codes \<and> map_of les' n = Some le"
    if "n \<in> set rest" for n
  proof -
    have "n \<noteq> col" using that fresh by blast
    then show ?thesis using IH that other [of n] n1 by force
  qed
  have c': "\<exists>c le codes. getitem dm n = Inr c \<and> fit_transform c = Inr (le, codes) \<and>
      column_len codes = nrows dm \<and> getitem dm' n = Inr codes \<and> map_of les' n = Some le"
    if "n \<in> set (col # rest)" for n
  proof (cases "n = col")
    case True
    then show ?thesis using c fit len hd by blast
  next
    case False
    then show ?thesis using that tl by simp
  qed
  show ?case using a b c' by blast
qed

lemma encode_cell_result:
  assumes "encode_cell st = Inr st'"
  shows "\<exists>dm les. st' = st\<lparr>df_model := Some dm, le_dict := Some les\<rparr> \<and>
           index dm = index (df st) \<and>
           getitem dm ''Clicked'' = getitem (df st) ''Clicked'' \<and>
           (\<forall>n \<in> set features. \<exists>c le codes. getitem (df st) n = Inr c \<and>
              fit_transform c = Inr (le, codes) \<and> column_len codes = nrows (df st) \<and>
              getitem dm n = Inr codes \<and> map_of les n = Some le)"
proof -
  from assms obtain sub dm les where
    sub: "getitems (df st) (features @ [''Clicked'']) = Inr sub"
    and loop: "encode_loop features sub [] = Inr (dm, les)"
    and st': "st' = st\<lparr>df_model := Some dm, le_dict := Some les\<rparr>"
    by (auto simp: encode_cell_def seq_def frame_copy_def split: sum.splits)
  have d: "distinct features" and nc: "''Clicked'' \<notin> set features"
    by (simp_all add: features_def)
  note g = getitems_result [OF sub]
  note e = encode_loop_result [OF loop d]
  have n: "nrows sub = nrows (df st)" using g by (simp add: nrows_def)
  have "getitem dm ''Clicked'' = getitem (df st) ''Clicked''"
    using e nc g by simp
  moreover have "\<exists>c le codes. getitem (df st) n = Inr c \<and>
              fit_transform c = Inr (le, codes) \<and> column_len codes = nrows (df st) \<and>
              getitem dm n = Inr codes \<and> map_of les n = Some le"
    if "n \<in> set features" for n
  proof -
    have "getitem sub n = getitem (df st) n" using g that by simp
    then show ?thesis using e that n by force
  qed
  moreover have "index dm = index (df st)" using e g by simp
  ultimately show ?thesis using st' by blast
qed


lemma transform_str:
  assumes "set xs \<subseteq> set cls"
  shows "transform (LabelEncoder (StrCol cls)) (StrCol xs)
           = Inr (IntCol (map (\<lambda>x. int (index_of cls x)) xs))"
    and "inverse_transform (LabelEncoder (StrCol cls)) (IntCol (map (\<lambda>x. int (index_of cls x)) xs))
           = Inr (StrCol xs)"
  using assms decode_encode [OF assms]
  by (auto simp: encode_def list_all_iff seq_def)

text \<open>
  C5. For each feature column (\<open>Gender\<close>, \<open>Age\<close>, \<open>ad_variant\<close>) that holds strings,
  the encoder kept for it has as classes the distinct observed values in ascending
  (lexicographic) order; the code of a value is its position there, so distinct
  categories get distinct codes and the codes follow the order of the categories; the
  column of the model table is the code of every record's value under this one mapping;
  and decoding the code of any category of the vocabulary gives the category back.
\<close>

theorem encode_cell_encoders:
  assumes run: "encode_cell st = Inr st'"
    and f: "f \<in> set features"
    and col: "getitem (df st) f = Inr (StrCol xs)"
  shows "\<exists>dm les cls codes.
     df_model st' = Some dm \<and> le_dict st' = Some les \<and>
     map_of les f = Some (LabelEncoder (StrCol cls)) \<and> getitem dm f = Inr (IntCol codes) \<and>
     cls = unique xs \<and> sorted cls \<and> distinct cls \<and> set cls = set xs \<and>
     codes = map (\<lambda>x. int (index_of cls x)) xs \<and>
     (\<forall>x \<in> set xs. \<forall>y \<in> set xs.
        (index_of cls x = index_of cls y \<longrightarrow> x = y) \<and>
        (x < y \<longleftrightarrow> index_of cls x < index_of cls y)) \<and>
     transform (LabelEncoder (StrCol cls)) (StrCol xs) = Inr (IntCol codes) \<and>
     inverse_transform (LabelEncoder (StrCol cls)) (IntCol codes) = Inr (StrCol xs) \<and>
     (\<forall>x \<in> set cls. \<exists>code.
        transform (LabelEncoder (StrCol cls)) (StrCol [x]) = Inr (IntCol [code]) \<and>
        inverse_transform (LabelEncoder (StrCol cls)) (IntCol [code]) = Inr (StrCol [x]))"
proof -
  let ?cls = "unique xs"
  let ?codes = "map (\<lambda>x. int (index_of ?cls x)) xs"
  from encode_cell_result [OF run] obtain dm les where
    st': "st' = st\<lparr>df_model := Some dm, le_dict := Some les\<rparr>"
    and each: "\<forall>n \<in> set features. \<exists>c le codes. getitem (df st) n = Inr c \<and>
              fit_transform c = Inr (le, codes) \<and> column_len codes = nrows (df st) \<and>
              getitem dm n = Inr codes \<and> map_of les n = Some le"
    by blast
  from each f col have dm: "getitem dm f = Inr (IntCol ?codes)"
    and le: "map_of les f = Some (LabelEncoder (StrCol ?cls))"
    by (auto simp: encode_def)
  have s: "sorted ?cls" and d: "distinct ?cls" and v: "set ?cls = set xs"
    by (simp_all add: unique_props)
  have inj: "(index_of ?cls x = index_of ?cls y \<longrightarrow> x = y) \<and>
        (x < y \<longleftrightarrow> index_of ?cls x < index_of ?cls y)"
    if "x \<in> set xs" "y \<in> set xs" for x y
    using that index_of_inj [of x ?cls y] index_of_mono [OF s d, of x y] v by blast
  have whole: "transform (LabelEncoder (StrCol ?cls)) (StrCol xs) = Inr (IntCol ?codes)"
      "inverse_transform (LabelEncoder (StrCol ?cls)) (IntCol ?codes) = Inr (StrCol xs)"
    using transform_str [of xs ?cls] v by simp_all
  have one: "\<exists>code. transform (LabelEncoder (StrCol ?cls)) (StrCol [x]) = Inr (IntCol [code]) \<and>
        inverse_transform (LabelEncoder (StrCol ?cls)) (IntCol [code]) = Inr (StrCol [x])"
    if "x \<in> set ?cls" for x
    using transform_str [of "[x]" ?cls] that by simp
  have "df_model st' = Some dm" "le_dict st' = Some les" by (simp_all add: st')
  then show ?thesis using dm le s d v inj whole one by blast
qed

lemma sample_prepared_runs:
  "case encode_cell sample_prepared of Inl e \<Rightarrow> False | Inr s \<Rightarrow> True"
  by code_simp

theorem encode_cell_encoders_witness:
  "\<exists>st' dm les. encode_cell sample_prepared = Inr st' \<and>
     df_model st' = Some dm \<and> le_dict st' = Some les \<and>
     map_of les ''Age'' = Some (LabelEncoder (StrCol [''30-34'', ''35-39'', ''40-44'', ''45-49''])) \<and>
     getitem dm ''Age'' = Inr (IntCol [0, 3, 0, 1, 2]) \<and>
     inverse_transform (LabelEncoder (StrCol [''30-34'', ''35-39'', ''40-44'', ''45-49'']))
       (IntCol [0, 3, 0, 1, 2]) = Inr (StrCol [''30-34'', ''45-49'', ''30-34'', ''35-39'', ''40-44''])"
proof -
  obtain st' where run: "encode_cell sample_prepared = Inr st'"
    using sample_prepared_runs by (auto split: sum.splits)
  have f: "''Age'' \<in> set features" by (simp add: features_def)
  have col: "getitem (df sample_prepared) ''Age''
      = Inr (StrCol [''30-34'', ''45-49'', ''30-34'', ''35-39'', ''40-44''])"
    by (simp add: getitem_def sample_prepared_def sample_notebook_def sample_table_def)
  have u: "unique [''30-34'', ''45-49'', ''30-34'', ''35-39'', ''40-44'']
      = [''30-34'', ''35-39'', ''40-44'', ''45-49'']"
    by code_simp
  from encode_cell_encoders [OF run f col] show ?thesis
    using run by (auto simp: u)
qed

section \<open>Properties of the train/test split\<close>

lemma safe_indexing_result:
  assumes "safe_indexing xs idx = Inr r"
  shows "r = map ((!) xs) idx \<and> (\<forall>i \<in> set idx. i < length xs)"
  using assms
  by (induction idx arbitrary: r) (auto simp: seq_def split: if_splits sum.splits)

lemma train_test_split_result:
  assumes "train_test_split G xs ys seed = Inr parts"
  shows "\<exists>it ir. it @ ir = take (length xs) (fst (np_permutation G (length xs) (np_seed G seed))) \<and>
      it = take ((length xs + 4) div 5) (fst (np_permutation G (length xs) (np_seed G seed))) \<and>
      length ys = length xs \<and> 2 \<le> length xs \<and>
      (\<forall>i \<in> set (it @ ir). i < length xs) \<and>
      parts = (map ((!) xs) ir, map ((!) xs) it, map ((!) ys) ir, map ((!) ys) it)"
proof -
  let ?n = "length xs"
  let ?p = "fst (np_permutation G ?n (np_seed G seed))"
  let ?t = "(?n + 4) div 5"
  let ?it = "take ?t ?p" and ?ir = "take (?n - ?t) (drop ?t ?p)"
  from assms have len: "length ys = ?n" and ne: "?n - ?t \<noteq> 0"
    by (auto simp: train_test_split_def Let_def split: if_splits)
  from assms len ne obtain a b c d where
    a: "safe_indexing xs ?ir = Inr a" and b: "safe_indexing xs ?it = Inr b"
    and c: "safe_indexing ys ?ir = Inr c" and d: "safe_indexing ys ?it = Inr d"
    and parts: "parts = (a, b, c, d)"
    by (auto simp: train_test_split_def Let_def seq_def split: sum.splits)
  have two: "2 \<le> ?n" using ne by arith
  have le: "?t \<le> ?n" using ne by arith
  have "?it @ ?ir = take (?t + (?n - ?t)) ?p" by (simp only: take_add)
  then have cat: "?it @ ?ir = take ?n ?p" using le by simp
  have "\<forall>i \<in> set (?it @ ?ir). i < ?n"
    using safe_indexing_result [OF a] safe_indexing_result [OF b] by auto
  moreover have "parts = (map ((!) xs) ?ir, map ((!) xs) ?it, map ((!) ys) ?ir, map ((!) ys) ?it)"
    using safe_indexing_result [OF a] safe_indexing_result [OF b]
      safe_indexing_result [OF c] safe_indexing_result [OF d] parts by simp
  ultimately show ?thesis using cat len two by blast
qed

lemma split_cell_result:
  assumes "split_cell G st = Inr st'"
  shows "\<exists>dm fx c parts. df_model st = Some dm \<and> getitems dm features = Inr fx \<and>
      getitem dm ''Clicked'' = Inr c \<and>
      train_test_split G (frame_values fx) (to_cells c) 42 = Inr parts \<and>
      st' = st\<lparr>X := Some (frame_values fx), y := Some (to_cells c),
             X_train := Some (fst parts), X_test := Some (fst (snd parts)),
             y_train := Some (fst (snd (snd parts))),
             y_test := Some (snd (snd (snd parts)))\<rparr>"
  using assms
  by (auto simp: split_cell_def seq_def var_def split: sum.splits option.splits)

text \<open>
  C7, as amended. When the split returns, for \<open>n\<close> encoded records (\<open>n \<ge> 2\<close>): the
  evaluation subset has \<open>(n + 4) div 5\<close> records, which is 20 percent rounded up, and
  the training subset has the other \<open>n\<close> minus that many, exactly 20 and 80 percent
  when 5 divides \<open>n\<close>. The indices come from the permutation of a generator seeded with
  42 and do not depend on the labels (no stratification); every record's index is in
  exactly one of the two subsets; and the feature rows and the labels of a subset are
  taken at the same indices. The permutation is assumed to be one of \<open>0, ..., n - 1\<close>.
\<close>

theorem split_cell_partition:
  assumes run: "split_cell G st = Inr st'"
    and perm: "\<forall>n. mset (fst (np_permutation G n (np_seed G 42))) = mset [0..<n]"
  shows "\<exists>dm Xv yv it ir.
      df_model st = Some dm \<and> X st' = Some Xv \<and> y st' = Some yv \<and>
      length Xv = nrows dm \<and> length yv = length Xv \<and> 2 \<le> length Xv \<and>
      it @ ir = fst (np_permutation G (length Xv) (np_seed G 42)) \<and>
      mset (it @ ir) = mset [0..<length Xv] \<and>
      length it = (length Xv + 4) div 5 \<and>
      length ir = length Xv - (length Xv + 4) div 5 \<and>
      X_train st' = Some (map ((!) Xv) ir) \<and> y_train st' = Some (map ((!) yv) ir) \<and>
      X_test st' = Some (map ((!) Xv) it) \<and> y_test st' = Some (map ((!) yv) it) \<and>
      (5 dvd length Xv \<longrightarrow> 5 * length it = length Xv \<and> 5 * length ir = 4 * length Xv)"
proof -
  from split_cell_result [OF run] obtain dm fx c parts where
    dm: "df_model st = Some dm" and fx: "getitems dm features = Inr fx"
    and split: "train_test_split G (frame_values fx) (to_cells c) 42 = Inr parts"
    and st': "st' = st\<lparr>X := Some (frame_values fx), y := Some (to_cells c),
             X_train := Some (fst parts), X_test := Some (fst (snd parts)),
             y_train := Some (fst (snd (snd parts))),
             y_test := Some (snd (snd (snd parts)))\<rparr>"
    by blast
  let ?X = "frame_values fx" and ?y = "to_cells c"
  let ?n = "length ?X"
  let ?p = "fst (np_permutation G ?n (np_seed G 42))"
  have n: "?n = nrows dm"
    using getitems_result [OF fx] by (simp add: frame_values_def nrows_def)
  from train_test_split_result [OF split] obtain it ir where
    cat: "it @ ir = take ?n ?p" and it: "it = take ((?n + 4) div 5) ?p"
    and ly: "length ?y = ?n" and two: "2 \<le> ?n"
    and parts: "parts = (map ((!) ?X) ir, map ((!) ?X) it, map ((!) ?y) ir, map ((!) ?y) it)"
    by blast
  have mp: "mset ?p = mset [0..<?n]" using perm by blast
  have lp: "length ?p = ?n" using mset_eq_length [OF mp] by simp
  have cat': "it @ ir = ?p" using cat lp by simp
  have lit: "length it = (?n + 4) div 5" using it lp two by simp
  have "length it + length ir = ?n" using cat' lp by (metis length_append)
  then have lir: "length ir = ?n - (?n + 4) div 5" using lit by simp
  have pct: "5 * length it = ?n \<and> 5 * length ir = 4 * ?n" if "5 dvd ?n"
  proof -
    from that obtain k where k: "?n = 5 * k" by (rule dvdE)
    have "(?n + 4) div 5 = k" by (simp add: k)
    then show ?thesis using lit lir k by simp
  qed
  have "X st' = Some ?X" "y st' = Some ?y"
    "X_train st' = Some (map ((!) ?X) ir)" "y_train st' = Some (map ((!) ?y) ir)"
    "X_test st' = Some (map ((!) ?X) it)" "y_test st' = Some (map ((!) ?y) it)"
    by (simp_all add: st' parts)
  moreover have "mset (it @ ir) = mset [0..<?n]" using cat' mp by simp
  ultimately show ?thesis using dm n ly two cat' lit lir pct by blast
qed


lemma mset_rotate_same: "mset (rotate k xs) = mset xs"
proof -
  have "mset (drop m xs @ take m xs) = mset (take m xs @ drop m xs)" for m
    by (simp only: mset_append add.commute)
  then show ?thesis by (simp only: rotate_drop_take append_take_drop_id)
qed

lemma cycle_rng_permutes:
  "\<forall>n. mset (fst (np_permutation cycle_rng n (np_seed cycle_rng 42))) = mset [0..<n]"
  by (simp add: cycle_rng_def mset_rotate_same del: mset_upt)

lemma sample_prepared_splits:
  "case seq (encode_cell sample_prepared) (split_cell cycle_rng) of Inl e \<Rightarrow> False | Inr s \<Rightarrow> True"
  by code_simp

theorem split_cell_partition_witness:
  "\<exists>s st' Xv it ir. encode_cell sample_prepared = Inr s \<and> split_cell cycle_rng s = Inr st' \<and>
     X st' = Some Xv \<and> length Xv = 5 \<and> mset (it @ ir) = mset [0..<5] \<and>
     length it = 1 \<and> length ir = 4 \<and>
     X_train st' = Some (map ((!) Xv) ir) \<and> X_test st' = Some (map ((!) Xv) it)"
proof -
  obtain s st' where enc: "encode_cell sample_prepared = Inr s"
    and run: "split_cell cycle_rng s = Inr st'"
    using sample_prepared_splits by (auto simp: seq_def split: sum.splits)
  from encode_cell_result [OF enc] obtain dm where
    dm: "df_model s = Some dm" and idx: "index dm = index (df sample_prepared)"
    by auto
  have n: "nrows dm = 5"
    by (simp add: nrows_def idx sample_prepared_def sample_notebook_def sample_table_def)
  from split_cell_partition [OF run cycle_rng_permutes] obtain Xv it ir where
    "X st' = Some Xv" "length Xv = 5" "mset (it @ ir) = mset [0..<length Xv]"
    "length it = (length Xv + 4) div 5" "length ir = length Xv - (length Xv + 4) div 5"
    "X_train st' = Some (map ((!) Xv) ir)" "X_test st' = Some (map ((!) Xv) it)"
    using dm n by auto
  moreover from this have "length it = 1" "length ir = 4" "mset (it @ ir) = mset [0..<5]"
    by simp_all
  ultimately show ?thesis using enc run by blast
qed

text \<open>
  C7 as stated fails: of seven records the training subset gets five and the evaluation
  subset two, neither 80 nor 20 percent.
\<close>

theorem split_cell_sizes_counterexample:
  "map_sum id (map_option length \<circ> X) (run_notebook cycle_rng seven_notebook) = Inr (Some 7) \<and>
   map_sum id (map_option length \<circ> X_train) (run_notebook cycle_rng seven_notebook) = Inr (Some 5) \<and>
   map_sum id (map_option length \<circ> X_test) (run_notebook cycle_rng seven_notebook) = Inr (Some 2) \<and>
   (5::nat) * 5 \<noteq> 4 * 7 \<and> (5::nat) * 2 \<noteq> 7"
  by code_simp


section \<open>The evaluation subset stays inside the fitted vocabulary\<close>





section \<open>What the cells change in the loaded table\<close>

lemma ctr_cell_frame:
  assumes "ctr_cell st = Inr st'"
  shows "\<exists>q. st' = st\<lparr>df := (df st)\<lparr>cols := AList.update ''CTR'' q (cols (df st))\<rparr>\<rparr>"
  using assms
  by (auto simp: ctr_cell_def seq_def setitem_def split: sum.splits if_splits)

lemma clicked_cell_frame:
  assumes "clicked_cell st = Inr st'"
  shows "\<exists>q. st' = st\<lparr>df := (df st)\<lparr>cols := AList.update ''Clicked'' q (cols (df st))\<rparr>\<rparr>"
  using assms
  by (auto simp: clicked_cell_def seq_def setitem_def split: sum.splits if_splits)

lemma aggregate_variants_frame:
  assumes "aggregate_variants st = Inr st'"
  shows "\<exists>g. st' = st\<lparr>grouped := Some g\<rparr>"
  using assms
  by (auto simp: aggregate_variants_def seq_def split: sum.splits)

lemma ab_cell_frame:
  assumes "ab_cell G st = Inr st'"
  shows "df st' = (df st)\<lparr>cols := AList.update ''ad_variant''
           (StrCol (fst (np_choice G [''A'', ''B''] (nrows (df st)) (np_seed G 42)))) (cols (df st))\<rparr>"
proof -
  from assms obtain s1 where a: "assign_variants G st = Inr s1"
    and b: "aggregate_variants s1 = Inr st'"
    by (auto simp: ab_cell_def seq_def split: sum.splits)
  from a have "df s1 = (df st)\<lparr>cols := AList.update ''ad_variant''
           (StrCol (fst (np_choice G [''A'', ''B''] (nrows (df st)) (np_seed G 42)))) (cols (df st))\<rparr>"
    by (auto simp: assign_variants_result Let_def split: if_splits)
  then show ?thesis using aggregate_variants_frame [OF b] by auto
qed

lemma encode_cell_frame:
  assumes "encode_cell st = Inr st'"
  shows "df st' = df st"
  using encode_cell_result [OF assms] by auto

lemma split_cell_frame:
  assumes "split_cell G st = Inr st'"
  shows "df st' = df st"
  using split_cell_result [OF assms] by auto

text \<open>
  C8. A run of the cells leaves the index of \<open>df\<close> and every column other than \<open>CTR\<close>,
  \<open>ad_variant\<close> and \<open>Clicked\<close> as they were, in particular \<open>Age\<close>, \<open>Gender\<close>,
  \<open>Impressions\<close>, \<open>Clicks\<close> and \<open>Spend\<close>: the columns of \<open>df\<close> at the end are its
  columns at the start with these three set. The encoding cell and the split do not
  change \<open>df\<close> at all: the codes go to \<open>df_model\<close>, and \<open>ad_variant\<close> in \<open>df\<close> still
  holds the labels.
\<close>

theorem run_notebook_frame:
  assumes run: "run_notebook G st = Inr st'"
  shows "index (df st') = index (df st) \<and>
     (\<exists>ctr lab clk. cols (df st') =
        AList.update ''Clicked'' clk (AList.update ''ad_variant'' lab
          (AList.update ''CTR'' ctr (cols (df st))))) \<and>
     (\<forall>name. name \<notin> {''CTR'', ''ad_variant'', ''Clicked''} \<longrightarrow>
        getitem (df st') name = getitem (df st) name) \<and>
     getitem (df st') ''Age'' = getitem (df st) ''Age'' \<and>
     getitem (df st') ''Gender'' = getitem (df st) ''Gender'' \<and>
     getitem (df st') ''Impressions'' = getitem (df st) ''Impressions'' \<and>
     getitem (df st') ''Clicks'' = getitem (df st) ''Clicks'' \<and>
     getitem (df st') ''Spend'' = getitem (df st) ''Spend'' \<and>
     getitem (df st') ''ad_variant'' =
        Inr (StrCol (fst (np_choice G [''A'', ''B''] (nrows (df st)) (np_seed G 42)))) \<and>
     (\<forall>s s'. encode_cell s = Inr s' \<longrightarrow> df s' = df s) \<and>
     (\<forall>s s'. split_cell G s = Inr s' \<longrightarrow> df s' = df s)"
proof -
  from run obtain s1 s2 s3 s4 where
    c1: "ctr_cell st = Inr s1" and c2: "ab_cell G s1 = Inr s2"
    and c3: "clicked_cell s2 = Inr s3" and c4: "encode_cell s3 = Inr s4"
    and c5: "split_cell G s4 = Inr st'"
    by (auto simp: run_notebook_def seq_def split: sum.splits)
  let ?lab = "StrCol (fst (np_choice G [''A'', ''B''] (nrows (df st)) (np_seed G 42)))"
  from ctr_cell_frame [OF c1] obtain ctr where
    d1: "df s1 = (df st)\<lparr>cols := AList.update ''CTR'' ctr (cols (df st))\<rparr>" by auto
  have n1: "nrows (df s1) = nrows (df st)" by (simp add: d1 nrows_def)
  have d2: "df s2 = (df s1)\<lparr>cols := AList.update ''ad_variant'' ?lab (cols (df s1))\<rparr>"
    using ab_cell_frame [OF c2] n1 by simp
  from clicked_cell_frame [OF c3] obtain clk where
    d3: "df s3 = (df s2)\<lparr>cols := AList.update ''Clicked'' clk (cols (df s2))\<rparr>" by auto
  have d5: "df st' = df s3"
    using encode_cell_frame [OF c4] split_cell_frame [OF c5] by simp
  have cols: "cols (df st') = AList.update ''Clicked'' clk (AList.update ''ad_variant'' ?lab
          (AList.update ''CTR'' ctr (cols (df st))))"
    by (simp add: d5 d3 d2 d1)
  have idx: "index (df st') = index (df st)" by (simp add: d5 d3 d2 d1)
  have other: "getitem (df st') name = getitem (df st) name"
    if "name \<notin> {''CTR'', ''ad_variant'', ''Clicked''}" for name
    using that by (simp add: getitem_def cols update_conv')
  have lab: "getitem (df st') ''ad_variant'' = Inr ?lab"
    by (simp add: getitem_def cols update_conv')
  have five: "getitem (df st') ''Age'' = getitem (df st) ''Age''"
    "getitem (df st') ''Gender'' = getitem (df st) ''Gender''"
    "getitem (df st') ''Impressions'' = getitem (df st) ''Impressions''"
    "getitem (df st') ''Clicks'' = getitem (df st) ''Clicks''"
    "getitem (df st') ''Spend'' = getitem (df st) ''Spend''"
    by (simp_all add: other)
  have ex: "\<exists>ctr lab clk. cols (df st') =
        AList.update ''Clicked'' clk (AList.update ''ad_variant'' lab
          (AList.update ''CTR'' ctr (cols (df st))))"
    using cols by blast
  have all: "\<forall>name. name \<notin> {''CTR'', ''ad_variant'', ''Clicked''} \<longrightarrow>
        getitem (df st') name = getitem (df st) name"
    using other by blast
  have e: "\<forall>s s'. encode_cell s = Inr s' \<longrightarrow> df s' = df s"
    using encode_cell_frame by blast
  have sp: "\<forall>s s'. split_cell G s = Inr s' \<longrightarrow> df s' = df s"
    using split_cell_frame by blast
  show ?thesis by (intro conjI idx ex all five lab e sp)
qed

lemma sample_notebook_runs:
  "case run_notebook cycle_rng sample_notebook of Inl e \<Rightarrow> False | Inr s \<Rightarrow> True"
  by code_simp

theorem run_notebook_frame_witness:
  "\<exists>st'. run_notebook cycle_rng sample_notebook = Inr st' \<and>
     index (df st') = map Row [0, 1, 2, 3, 4] \<and>
     getitem (df st') ''Age'' = Inr (StrCol [''30-34'', ''45-49'', ''30-34'', ''35-39'', ''40-44'']) \<and>
     getitem (df st') ''Gender'' = Inr (StrCol [''M'', ''F'', ''F'', ''M'', ''F'']) \<and>
     getitem (df st') ''Impressions'' = Inr (IntCol [100, 200, 0, 50, 400]) \<and>
     getitem (df st') ''Clicks'' = Inr (IntCol [10, 0, 0, 5, 100]) \<and>
     getitem (df st') ''Spend'' = Inr (FloatCol [Num 1, Num (5 / 2), Num 0, Num (3 / 4), Num 12]) \<and>
     map fst (cols (df st')) = [''Age'', ''Gender'', ''Impressions'', ''Clicks'', ''Spend'',
        ''CTR'', ''ad_variant'', ''Clicked'']"
proof -
  obtain st' where run: "run_notebook cycle_rng sample_notebook = Inr st'"
    using sample_notebook_runs by (auto split: sum.splits)
  note fr = run_notebook_frame [OF run]
  note rest = fr [THEN conjunct2, THEN conjunct2, THEN conjunct2]
  have before:
    "index (df sample_notebook) = map Row [0, 1, 2, 3, 4]"
    "getitem (df sample_notebook) ''Age''
       = Inr (StrCol [''30-34'', ''45-49'', ''30-34'', ''35-39'', ''40-44''])"
    "getitem (df sample_notebook) ''Gender'' = Inr (StrCol [''M'', ''F'', ''F'', ''M'', ''F''])"
    "getitem (df sample_notebook) ''Impressions'' = Inr (IntCol [100, 200, 0, 50, 400])"
    "getitem (df sample_notebook) ''Clicks'' = Inr (IntCol [10, 0, 0, 5, 100])"
    "getitem (df sample_notebook) ''Spend''
       = Inr (FloatCol [Num 1, Num (5 / 2), Num 0, Num (3 / 4), Num 12])"
    by (simp_all add: getitem_def sample_notebook_def sample_table_def)
  have i: "index (df st') = map Row [0, 1, 2, 3, 4]"
    using fr [THEN conjunct1] before(1) by (rule trans)
  have a: "getitem (df st') ''Age''
       = Inr (StrCol [''30-34'', ''45-49'', ''30-34'', ''35-39'', ''40-44''])"
    using rest [THEN conjunct1] before(2) by (rule trans)
  have g: "getitem (df st') ''Gender'' = Inr (StrCol [''M'', ''F'', ''F'', ''M'', ''F''])"
    using rest [THEN conjunct2, THEN conjunct1] before(3) by (rule trans)
  have m: "getitem (df st') ''Impressions'' = Inr (IntCol [100, 200, 0, 50, 400])"
    using rest [THEN conjunct2, THEN conjunct2, THEN conjunct1] before(4) by (rule trans)
  have c: "getitem (df st') ''Clicks'' = Inr (IntCol [10, 0, 0, 5, 100])"
    using rest [THEN conjunct2, THEN conjunct2, THEN conjunct2, THEN conjunct1] before(5)
    by (rule trans)
  have s: "getitem (df st') ''Spend''
       = Inr (FloatCol [Num 1, Num (5 / 2), Num 0, Num (3 / 4), Num 12])"
    using rest [THEN conjunct2, THEN conjunct2, THEN conjunct2, THEN conjunct2, THEN conjunct1]
      before(6) by (rule trans)
  from fr [THEN conjunct2, THEN conjunct1] obtain ctr lab clk where
    "cols (df st') = AList.update ''Clicked'' clk (AList.update ''ad_variant'' lab
          (AList.update ''CTR'' ctr (cols (df sample_notebook))))"
    by blast
  then have names: "map fst (cols (df st')) = [''Age'', ''Gender'', ''Impressions'', ''Clicks'',
        ''Spend'', ''CTR'', ''ad_variant'', ''Clicked'']"
    by (simp add: sample_notebook_def sample_table_def)
  show ?thesis by (rule exI [of _ st']) (intro conjI run i a g m c s names)
qed

end
